theory Spec2Isabelle
  imports Complex_Main "HOL-Library.AList"
begin

section \<open>The source-side migration orchestrator of vdsm (virt/migration.py)\<close>

text \<open>
  The module has three thread classes: \<open>SourceThread\<close> (the driver), \<open>DowntimeThread\<close>
  (the downtime ramp) and \<open>MonitorThread\<close> (the progress monitor). Each method is embedded
  as a function on an explicit state. Calls that leave the module (the peer's RPC server,
  the libvirt domain, the VM object, the guest agent, hooks, the volume helper of the
  client interface, the file system, the clock) are answered by an environment record:
  every such call has a field that says whether it raises and what it returns, so that
  each raise of the source is a branch of the model. The calls themselves are appended
  to a trace of events, and so are the writes of the \<open>_migrationParams\<close> key, the write
  of line 314 that ends the preparation (\<open>Checkpoint\<close>), and what each \<open>getStat\<close> and
  \<open>stop\<close> of another thread gave its caller. Logging is left out: it has no effect on
  the state.

  The module is Python 2: \<open>/\<close> on integers is floor division. Wall-clock times are
  rational numbers. The three threads share the driver's state; what the other threads
  do while the driver runs is part of the environment: whether a \<open>stop\<close> has come in
  before each of the two reads of the cancellation flag, and the sequence of monitor
  iterations, \<open>getStat\<close> calls and \<open>stop\<close> calls that happen while the driver is blocked
  in the hypervisor's migration call.

  \<open>self.status = errCode['exist']\<close> makes the status an alias of an entry of the table
  \<open>errCode\<close>, and later writes through \<open>self.status\<close> change that entry. The model
  keeps the status by value and takes the entries of the table as they are when a run
  reads them; within one run no entry is read after a write through an alias of it.
\<close>

subsection \<open>Python values, dictionaries, exceptions\<close>

datatype pyval =
    PNone
  | PBool bool
  | PInt int
  | PFloat rat
  | PStr string
  | PList "pyval list"
  | PDict "(string \<times> pyval) list"

type_synonym pydict = "(string \<times> pyval) list"

text \<open>\<open>d[k] = v\<close>, \<open>del d[k]\<close>, \<open>k in d\<close> and \<open>d.update(other)\<close> on insertion-ordered
  association lists with unique keys.\<close>

definition dict_set :: "string \<Rightarrow> pyval \<Rightarrow> pydict \<Rightarrow> pydict" where
  "dict_set k v d = AList.update k v d"

definition dict_del :: "string \<Rightarrow> pydict \<Rightarrow> pydict" where
  "dict_del k d = AList.delete k d"

definition dict_has :: "string \<Rightarrow> pydict \<Rightarrow> bool" where
  "dict_has k d = (map_of d k \<noteq> None)"

definition dict_update :: "pydict \<Rightarrow> pydict \<Rightarrow> pydict" where
  "dict_update d other = foldl (\<lambda>acc (k, v). dict_set k v acc) d other"

text \<open>\<open>if k in d: del d[k]\<close>\<close>

definition dict_discard :: "string \<Rightarrow> pydict \<Rightarrow> pydict" where
  "dict_discard k d = (if dict_has k d then dict_del k d else d)"

text \<open>A \<open>libvirtError\<close> carries the error code that \<open>get_error_code()\<close> returns
  (\<open>None\<close> when the error has no \<open>err\<close> tuple); every other exception is kept by name.\<close>

datatype exn = LibvirtError "int option" | OtherError string

definition VIR_ERR_OPERATION_ABORTED :: int where
  "VIR_ERR_OPERATION_ABORTED = 78"

text \<open>Iterating over a value and indexing a value with a string key.\<close>

fun py_iter :: "pyval \<Rightarrow> exn + pyval list" where
  "py_iter (PList xs) = Inr xs"
| "py_iter (PStr cs) = Inr (map (\<lambda>c. PStr [c]) cs)"
| "py_iter (PDict d) = Inr (map (\<lambda>kv. PStr (fst kv)) d)"
| "py_iter _ = Inl (OtherError ''TypeError'')"

fun py_getitem :: "pyval \<Rightarrow> string \<Rightarrow> exn + pyval" where
  "py_getitem (PDict d) k =
     (case map_of d k of None \<Rightarrow> Inl (OtherError ''KeyError'') | Some v \<Rightarrow> Inr v)"
| "py_getitem _ k = Inl (OtherError ''TypeError'')"

fun py_truthy :: "pyval \<Rightarrow> bool" where
  "py_truthy PNone = False"
| "py_truthy (PBool b) = b"
| "py_truthy (PInt n) = (n \<noteq> 0)"
| "py_truthy (PFloat x) = (x \<noteq> 0)"
| "py_truthy (PStr cs) = (cs \<noteq> [])"
| "py_truthy (PList xs) = (xs \<noteq> [])"
| "py_truthy (PDict d) = (d \<noteq> [])"

subsection \<open>MonitorThread.run.calculateProgress\<close>

text \<open>Python 2 integers: \<open>/\<close> is floor division, as \<open>div\<close> on \<open>int\<close> is.\<close>

definition calculateProgress :: "int \<Rightarrow> int \<Rightarrow> int" where
  "calculateProgress remaining tot =
     (if remaining = 0 then 100
      else let progress = (if tot \<noteq> 0 then 100 - 100 * remaining div tot else 0)
           in if progress < 100 then progress else 99)"


subsection \<open>Status, events, the monitor object\<close>

text \<open>
  The status dictionary \<open>{'status': {'code': c, 'message': m}, 'progress': p}\<close>. An entry of
  \<open>errCode\<close> and a peer's response have no \<open>'progress'\<close> key until \<open>getStat\<close> or
  \<open>_finishSuccessfully\<close> writes one.
\<close>

record status =
  code :: int
  message :: string
  progress :: "int option"

definition err_status :: "int \<times> string \<Rightarrow> status" where
  "err_status cm = \<lparr>code = fst cm, message = snd cm, progress = None\<rparr>"

datatype event =
    GetVmStats
  | MigrationCreate pydict
  | Destroy
  | DesktopLock
  | Sleep
  | VmPause string
  | VmCont
  | SaveState
  | SetDownStatus string
  | SlotAcquire
  | SlotRelease
  | ConfSetMigrationParams
  | ConfDelMigrationParams
  | HookBeforeVmHibernate
  | HookBeforeDeviceMigrateSource
  | HookBeforeVmMigrateSource
  | StatsPause
  | StatsCont
  | PrepareVolumePath string
  | TeardownVolumePath string
  | DomSave string
  | OpenWrite string
  | PickleDump string pydict
  | DowntimeStart
  | DowntimeCancel
  | MonitorStart
  | MonitorStop
  | MigrateToURI2 string string bool bool int
  | JobInfo
  | AbortJob
  | StatReturned status
  | StopReturned "exn option"
  | Checkpoint
  | EventWait int
  | SetMaxDowntime int

text \<open>The local variables of \<open>MonitorThread.run\<close> while its loop is running, and the
  thread object. \<open>m_loop = None\<close>: \<open>run\<close> is not in its loop (it has left it, or died).\<close>

record monitor_locals =
  migrationMaxTime :: int
  lastProgressTime :: rat
  lowmark :: "int option"
  progress_timeout :: int

record monitor_thread =
  m_stop :: bool
  m_startTime :: rat
  m_progress :: int
  m_loop :: "monitor_locals option"

text \<open>What \<open>_dom.jobInfo()\<close> returns, as far as the loop reads it, and the inputs of one
  iteration of the loop: the clock, the sample, and what \<open>abortJob\<close> does if called.\<close>

record jobinfo =
  jobType :: int
  timeElapsed :: int
  dataTotal :: int
  dataRemaining :: int

record tick =
  tick_now :: rat
  tick_jobInfo :: "exn + jobinfo"
  tick_abortJob :: "exn option"

text \<open>What other threads do while the driver is blocked in \<open>migrateToURI2\<close>.\<close>

datatype action = MonitorTick tick | GetStatCall | StopCall

subsection \<open>The environment and the state\<close>

record env =
  \<comment> \<open>vdsm.define.errCode, as (code, message)\<close>
  errCode_exist :: "int \<times> string"
  errCode_noConPeer :: "int \<times> string"
  errCode_migrateErr :: "int \<times> string"
  errCode_migCancelErr :: "int \<times> string"
  \<comment> \<open>configuration\<close>
  cfg_ssl :: bool
  cfg_max_bandwidth :: int
  cfg_monitor_interval :: int
  cfg_max_time_per_gib :: int
  cfg_progress_timeout :: int
  \<comment> \<open>clock and built-in conversions\<close>
  time_start :: rat
  time_params :: rat
  time_monitor :: rat
  py_str :: "pyval \<Rightarrow> string"
  \<comment> \<open>peer\<close>
  hostPort :: "exn + string"
  connect :: "exn option"
  getVmStats :: "exn + int"
  migrationCreate :: "exn + status"
  \<comment> \<open>VM object and guest agent\<close>
  vm_startTime :: rat
  vm_status :: "exn + pydict"
  vm_getStats :: "exn + pydict"
  XMLDesc :: "exn + string"
  isResponsive :: "exn + bool"
  desktopLock :: "exn option"
  session_poll :: "nat \<Rightarrow> exn + string"
  vm_pause :: "exn option"
  vm_cont :: "exn option"
  vm_saveState :: "exn option"
  vm_setDownStatus :: "exn option"
  vmStats_pause :: "exn option"
  vmStats_cont :: "exn option"
  conf_memSize :: "exn + int"
  spice_ticket :: "exn option"
  downtime_thread :: "exn option"
  \<comment> \<open>hooks\<close>
  before_vm_hibernate :: "exn option"
  before_device_migrate_source :: "exn option list"
  before_vm_migrate_source :: "exn option"
  \<comment> \<open>volume helper and file system\<close>
  prepareVolumePath_dst :: "exn + string"
  teardownVolumePath_dst :: "exn option"
  prepareVolumePath_dstparams :: "exn + string"
  teardownVolumePath_dstparams :: "exn option"
  open_file :: "exn option"
  pickle_dump :: "exn option"
  \<comment> \<open>libvirt domain and the other threads\<close>
  dom_save :: "exn option"
  migrateToURI2 :: "exn option"
  abortJob :: "exn option"
  stop_before_acquired_check :: bool
  stop_before_migrate_check :: bool
  during_migration :: "action list"

record state =
  dst :: string
  dstparams :: string
  mode :: string
  "method" :: string
  dstqemu :: string
  tunneled :: bool
  abortOnError :: bool
  machineParams :: pydict
  status :: status
  preparingMigrationEvt :: bool
  migrationCanceledEvt :: bool
  monitorThread :: "monitor_thread option"
  destServer :: bool
  remoteHost :: "string option"
  conf :: pydict
  lastStatus :: string
  ongoing_value :: nat
  ongoing_initial :: nat
  trace :: "event list"

text \<open>A method of the driver returns the exception it raises, if any, and the state.\<close>

type_synonym proc = "state \<Rightarrow> exn option \<times> state"

definition emit :: "event \<Rightarrow> state \<Rightarrow> state" where
  "emit ev s = s\<lparr>trace := trace s @ [ev]\<rparr>"

text \<open>An outside call with the given outcome; statements in sequence; \<open>try: ... finally: ...\<close>
  (an exception of the \<open>finally\<close> block replaces the pending one); and
  \<open>try: ... except Exception: handler; raise\<close>.\<close>

definition call :: "event \<Rightarrow> exn option \<Rightarrow> proc" where
  "call ev r s = (r, emit ev s)"

fun seqs :: "proc list \<Rightarrow> proc" where
  "seqs [] s = (None, s)"
| "seqs (f # fs) s =
     (case f s of (None, s1) \<Rightarrow> seqs fs s1 | (Some x, s1) \<Rightarrow> (Some x, s1))"

definition try_finally :: "proc \<Rightarrow> proc \<Rightarrow> proc" where
  "try_finally body fin s =
     (case body s of (r, s1) \<Rightarrow>
        (case fin s1 of (None, s2) \<Rightarrow> (r, s2) | (Some y, s2) \<Rightarrow> (Some y, s2)))"

definition except_reraise :: "proc \<Rightarrow> proc \<Rightarrow> proc" where
  "except_reraise body handler s =
     (case body s of
        (None, s1) \<Rightarrow> (None, s1)
      | (Some x, s1) \<Rightarrow>
         (case handler s1 of (None, s2) \<Rightarrow> (Some x, s2) | (Some y, s2) \<Rightarrow> (Some y, s2)))"


subsection \<open>MonitorThread\<close>

text \<open>\<open>__init__\<close>, then the statements of \<open>run\<close> before the loop (the clock reads \<open>now\<close>;
  \<open>int(self._vm.conf['memSize'])\<close> may raise, which ends the thread).\<close>

definition MonitorThread_init :: "rat \<Rightarrow> monitor_thread" where
  "MonitorThread_init startTime =
     \<lparr>m_stop = False, m_startTime = startTime, m_progress = 0, m_loop = None\<rparr>"

definition MonitorThread_run_begin ::
  "exn + int \<Rightarrow> int \<Rightarrow> int \<Rightarrow> rat \<Rightarrow> monitor_thread \<Rightarrow> monitor_thread" where
  "MonitorThread_run_begin memSize maxTimePerGiB timeout now m =
     (case memSize of
        Inl x \<Rightarrow> m
      | Inr sz \<Rightarrow>
          m\<lparr>m_loop := Some \<lparr>migrationMaxTime = (maxTimePerGiB * sz + 1023) div 1024,
                              lastProgressTime = now,
                              lowmark = None,
                              progress_timeout = timeout\<rparr>\<rparr>)"

text \<open>\<open>abortJob(); self.stop(); break\<close>\<close>

definition monitor_abort :: "tick \<Rightarrow> monitor_thread \<Rightarrow> event list \<times> monitor_thread" where
  "monitor_abort t m =
     (case tick_abortJob t of
        Some x \<Rightarrow> ([JobInfo, AbortJob], m\<lparr>m_loop := None\<rparr>)
      | None \<Rightarrow> ([JobInfo, AbortJob], m\<lparr>m_stop := True, m_loop := None\<rparr>))"

text \<open>The rest of an iteration that does not abort: the stall warning is only logged;
  a sample with \<open>jobType == 0\<close> leaves \<open>progress\<close> alone.\<close>

definition monitor_update ::
  "jobinfo \<Rightarrow> monitor_locals \<Rightarrow> monitor_thread \<Rightarrow> event list \<times> monitor_thread" where
  "monitor_update j l m =
     (if jobType j = 0 then ([JobInfo], m\<lparr>m_loop := Some l\<rparr>)
      else ([JobInfo],
            m\<lparr>m_progress := calculateProgress (dataRemaining j) (dataTotal j),
               m_loop := Some l\<rparr>))"

text \<open>One evaluation of the loop condition and, if it holds, one pass through the body.\<close>

definition MonitorThread_iteration ::
  "tick \<Rightarrow> monitor_thread \<Rightarrow> event list \<times> monitor_thread" where
  "MonitorThread_iteration t m =
     (case m_loop m of
        None \<Rightarrow> ([], m)
      | Some l \<Rightarrow>
          if m_stop m then ([], m\<lparr>m_loop := None\<rparr>)
          else
            (case tick_jobInfo t of
               Inl x \<Rightarrow> ([JobInfo], m\<lparr>m_loop := None\<rparr>)
             | Inr j \<Rightarrow>
                 let now = tick_now t in
                 if 0 < migrationMaxTime l \<and>
                    of_int (migrationMaxTime l) < now - m_startTime m
                 then monitor_abort t m
                 else if (case lowmark l of None \<Rightarrow> True | Some lm \<Rightarrow> lm > dataRemaining j)
                 then monitor_update j
                        (l\<lparr>lowmark := Some (dataRemaining j), lastProgressTime := now\<rparr>) m
                 else if now - lastProgressTime l > of_int (progress_timeout l)
                 then monitor_abort t m
                 else monitor_update j l m))"

subsection \<open>DowntimeThread\<close>

record downtime_thread =
  DOWNTIME_STEPS :: int
  d_downtime :: int
  d_wait :: int

definition DowntimeThread_init :: "int \<Rightarrow> int \<Rightarrow> int \<Rightarrow> int \<Rightarrow> downtime_thread" where
  "DowntimeThread_init steps downtime delay_per_gib memSize =
     \<lparr>DOWNTIME_STEPS = steps, d_downtime = downtime,
      d_wait = (delay_per_gib * max memSize 2048 + 1023) div 1024\<rparr>"

text \<open>The loop over \<open>range(DOWNTIME_STEPS)\<close>. \<open>stopped i\<close> is what \<open>self._stop.isSet()\<close>
  answers in iteration \<open>i\<close>, and \<open>setMax i\<close> what \<open>migrateSetMaxDowntime\<close> does there.\<close>

fun downtime_loop ::
  "(nat \<Rightarrow> bool) \<Rightarrow> (nat \<Rightarrow> exn option) \<Rightarrow> downtime_thread \<Rightarrow> nat list \<Rightarrow>
   exn option \<times> event list" where
  "downtime_loop stopped setMax t [] = (None, [])"
| "downtime_loop stopped setMax t (i # is) =
     (let w = EventWait (d_wait t div DOWNTIME_STEPS t) in
      if stopped i then (None, [w])
      else
        let downtime = d_downtime t * (int i + 1) div DOWNTIME_STEPS t in
        (case setMax i of
           Some x \<Rightarrow> (Some x, [w, SetMaxDowntime downtime])
         | None \<Rightarrow>
            (case downtime_loop stopped setMax t is of
               (r, evs) \<Rightarrow> (r, w # SetMaxDowntime downtime # evs))))"

definition DowntimeThread_run ::
  "(nat \<Rightarrow> bool) \<Rightarrow> (nat \<Rightarrow> exn option) \<Rightarrow> downtime_thread \<Rightarrow> exn option \<times> event list" where
  "DowntimeThread_run stopped setMax t =
     downtime_loop stopped setMax t [0 ..< nat (DOWNTIME_STEPS t)]"

subsection \<open>SourceThread: construction, getStat, stop\<close>

text \<open>\<open>__init__\<close>, together with the VM's configuration and the semaphore of the class
  as they are when the thread is created.\<close>

definition SourceThread_init ::
  "pydict \<Rightarrow> nat \<Rightarrow> nat \<Rightarrow> string \<Rightarrow> string \<Rightarrow> string \<Rightarrow> string \<Rightarrow> bool \<Rightarrow> string \<Rightarrow> bool \<Rightarrow>
   state" where
  "SourceThread_init vmconf sem_value sem_initial dst0 dstparams0 mode0 method0 tunneled0
     dstqemu0 abortOnError0 =
     \<lparr>dst = dst0, dstparams = dstparams0, mode = mode0, method = method0, dstqemu = dstqemu0,
      tunneled = tunneled0, abortOnError = abortOnError0,
      machineParams = [],
      status = \<lparr>code = 0, message = ''Migration in progress'', progress = Some 0\<rparr>,
      preparingMigrationEvt = True, migrationCanceledEvt = False, monitorThread = None,
      destServer = False, remoteHost = None,
      conf = vmconf, lastStatus = ''Up'',
      ongoing_value = sem_value, ongoing_initial = sem_initial,
      trace = []\<rparr>"

definition getStat :: "state \<Rightarrow> status \<times> state" where
  "getStat s =
     (let s1 = (case monitorThread s of
                  None \<Rightarrow> s
                | Some m \<Rightarrow> s\<lparr>status := (status s)\<lparr>progress := Some (m_progress m)\<rparr>\<rparr>)
      in (status s1, s1))"

definition stop :: "env \<Rightarrow> proc" where
  "stop e s =
     (let s1 = emit AbortJob (s\<lparr>migrationCanceledEvt := True\<rparr>) in
      case abortJob e of
        None \<Rightarrow> (None, s1)
      | Some (LibvirtError c) \<Rightarrow>
          if \<not> preparingMigrationEvt s1 then (Some (LibvirtError c), s1) else (None, s1)
      | Some (OtherError n) \<Rightarrow> (Some (OtherError n), s1))"

text \<open>A \<open>stop\<close> that another thread calls while the driver runs: the exception it raises,
  if any, goes to that caller; the trace records it.\<close>

definition stop_call :: "env \<Rightarrow> state \<Rightarrow> state" where
  "stop_call e s = (case stop e s of (r, s1) \<Rightarrow> emit (StopReturned r) s1)"

definition raiseAbortError :: proc where
  "raiseAbortError s = (Some (LibvirtError (Some VIR_ERR_OPERATION_ABORTED)), s)"


subsection \<open>SourceThread: the phases before the slot\<close>

text \<open>\<open>_setupVdsConnection\<close>. \<open>hostPort\<close> stands for lines 90-92 (the canonical
  \<open>host:port\<close>, split at its last colon; it yields the host) and \<open>connect\<close> for lines
  94-100. Neither branch of the probe raises or returns early.\<close>

definition setupVdsConnection :: "env \<Rightarrow> proc" where
  "setupVdsConnection e s =
     (if mode s = ''file'' then (None, s)
      else
        (case hostPort e of
           Inl x \<Rightarrow> (Some x, s)
         | Inr host \<Rightarrow>
            (case connect e of
               Some x \<Rightarrow> (Some x, s\<lparr>remoteHost := Some host\<rparr>)
             | None \<Rightarrow>
                (let s1 = emit GetVmStats (s\<lparr>remoteHost := Some host, destServer := True\<rparr>) in
                 case getVmStats e of
                   Inl x \<Rightarrow> (None, s1\<lparr>status := err_status (errCode_noConPeer e)\<rparr>)
                 | Inr c \<Rightarrow>
                     if c = 0 then (None, s1\<lparr>status := err_status (errCode_exist e)\<rparr>)
                     else (None, s1)))))"

text \<open>\<open>_patchConfigForLegacy\<close>: the inner loop over the drives for one \<open>item\<close>, and the
  method. An exception leaves the dictionary as far as it was changed.\<close>

fun patch_drives ::
  "string \<Rightarrow> pyval list \<Rightarrow> pydict \<Rightarrow> pyval list \<Rightarrow> exn option \<times> pydict \<times> pyval list" where
  "patch_drives item [] mp new_drives = (None, mp, new_drives)"
| "patch_drives item (drive # drives) mp new_drives =
     (case py_getitem drive ''device'' of
        Inl x \<Rightarrow> (Some x, mp, new_drives)
      | Inr dev \<Rightarrow>
          if dev = PStr item then
            (case py_getitem drive ''path'' of
               Inl x \<Rightarrow> (Some x, mp, new_drives)
             | Inr pth \<Rightarrow> patch_drives item drives (dict_set item pth mp) new_drives)
          else patch_drives item drives mp (new_drives @ [drive]))"

fun patch_items :: "string list \<Rightarrow> pydict \<Rightarrow> exn option \<times> pydict" where
  "patch_items [] mp = (None, mp)"
| "patch_items (item # items) mp =
     (case map_of mp ''drives'' of
        None \<Rightarrow> (Some (OtherError ''KeyError''), mp)
      | Some ds \<Rightarrow>
         (case py_iter ds of
            Inl x \<Rightarrow> (Some x, mp)
          | Inr drives \<Rightarrow>
             (case patch_drives item drives mp [] of
                (Some x, mp1, nd) \<Rightarrow> (Some x, mp1)
              | (None, mp1, nd) \<Rightarrow> patch_items items (dict_set ''drives'' (PList nd) mp1))))"

definition patchConfigForLegacy :: "pydict \<Rightarrow> exn option \<times> pydict" where
  "patchConfigForLegacy mp =
     (case (if dict_has ''drives'' mp then patch_items [''cdrom'', ''floppy''] mp
            else (None, mp)) of
        (Some x, mp1) \<Rightarrow> (Some x, mp1)
      | (None, mp1) \<Rightarrow> (None, dict_set ''afterMigrationStatus'' (PStr []) mp1))"

text \<open>\<open>if k in vmStats: self._machineParams[k] = vmStats[k]\<close>\<close>

definition copy_stat :: "string \<Rightarrow> pydict \<Rightarrow> pydict \<Rightarrow> pydict" where
  "copy_stat k vmStats mp = (case map_of vmStats k of None \<Rightarrow> mp | Some v \<Rightarrow> dict_set k v mp)"

definition setupRemoteMachineParams :: "env \<Rightarrow> proc" where
  "setupRemoteMachineParams e s =
     (case vm_status e of
        Inl x \<Rightarrow> (Some x, s)
      | Inr st \<Rightarrow>
         (case patchConfigForLegacy (dict_update (machineParams s) st) of
            (Some x, mp) \<Rightarrow> (Some x, s\<lparr>machineParams := mp\<rparr>)
          | (None, mp) \<Rightarrow>
             (let mp1 = dict_set ''elapsedTimeOffset''
                          (PFloat (time_params e - vm_startTime e)) mp in
              case vm_getStats e of
                Inl x \<Rightarrow> (Some x, s\<lparr>machineParams := mp1\<rparr>)
              | Inr vmStats \<Rightarrow>
                 (let mp2 = copy_stat ''guestFQDN'' vmStats
                              (copy_stat ''guestIPs'' vmStats
                                (copy_stat ''username'' vmStats mp1));
                      mp3 = dict_discard ''pid'' (dict_discard ''_migrationParams'' mp2);
                      mp4 = (if mode s \<noteq> ''file''
                             then dict_set ''migrationDest'' (PStr ''libvirt'') mp3 else mp3)
                  in case XMLDesc e of
                       Inl x \<Rightarrow> (Some x, s\<lparr>machineParams := mp4\<rparr>)
                     | Inr xml \<Rightarrow>
                         (None, s\<lparr>machineParams := dict_set ''_srcDomXML'' (PStr xml) mp4\<rparr>)))))"

text \<open>\<open>_prepareGuest\<close>. The loop \<open>while lockTimeout: ...\<close> counts \<open>lockTimeout\<close> down;
  \<open>session_poll e k\<close> is what \<open>getStats()['session']\<close> gives while \<open>lockTimeout = k\<close>.\<close>

fun wait_for_lock :: "env \<Rightarrow> nat \<Rightarrow> proc" where
  "wait_for_lock e 0 s = (None, s)"
| "wait_for_lock e (Suc n) s =
     (case session_poll e (Suc n) of
        Inl x \<Rightarrow> (Some x, s)
      | Inr session \<Rightarrow>
          if session = ''Locked'' \<or> session = ''LoggedOff'' then (None, s)
          else if n = 0 then (None, emit Sleep s)
          else wait_for_lock e n (emit Sleep s))"

definition prepareGuest :: "env \<Rightarrow> proc" where
  "prepareGuest e s =
     (if mode s = ''file'' then
        (case isResponsive e of
           Inl x \<Rightarrow> (Some x, s)
         | Inr responsive \<Rightarrow>
            (let lockTimeout = (if responsive then 30 else 0) in
             seqs [call DesktopLock (desktopLock e),
                   wait_for_lock e lockTimeout,
                   call (VmPause ''Saving State'') (vm_pause e)] s))
      else (None, s\<lparr>lastStatus := ''Migration Source''\<rparr>))"

subsection \<open>SourceThread: recovery and success\<close>

text \<open>\<open>_recover\<close>. A failure of the peer's \<open>destroy\<close> is caught, also the AttributeError
  when \<open>destServer\<close> was never set.\<close>

definition recover :: "env \<Rightarrow> proc" where
  "recover e s =
     (let s1 = (if code (status s) = 0
                then s\<lparr>status := err_status (errCode_migrateErr e)\<rparr> else s);
          s2 = (if mode s1 \<noteq> ''file'' \<and> destServer s1 then emit Destroy s1 else s1)
      in if mode s2 = ''file'' \<or> method s2 \<noteq> ''online'' then
           (case vm_cont e of
              Some x \<Rightarrow> (Some x, emit VmCont s2)
            | None \<Rightarrow> (None, (emit VmCont s2)\<lparr>lastStatus := ''Up''\<rparr>))
         else (None, s2\<lparr>lastStatus := ''Up''\<rparr>))"

definition set_message :: "string \<Rightarrow> proc" where
  "set_message m s = (None, s\<lparr>status := (status s)\<lparr>message := m\<rparr>\<rparr>)"

text \<open>\<open>with open(fname, "w") as f: pickle.dump(self._machineParams, f)\<close>\<close>

definition dump_params :: "env \<Rightarrow> string \<Rightarrow> proc" where
  "dump_params e fname s =
     seqs [call (OpenWrite fname) (open_file e),
           call (PickleDump fname (machineParams s)) (pickle_dump e)] s"

definition finishSuccessfully :: "env \<Rightarrow> proc" where
  "finishSuccessfully e s =
     (let s1 = s\<lparr>status := (status s)\<lparr>progress := Some 100\<rparr>\<rparr> in
      if mode s1 \<noteq> ''file'' then
        seqs [call (SetDownStatus ''MIGRATION_SUCCEEDED'') (vm_setDownStatus e),
              set_message ''Migration done''] s1
      else
        (let s2 = s1\<lparr>machineParams :=
                       dict_discard ''pid''
                         (dict_discard ''display''
                           (dict_discard ''displayIp'' (machineParams s1)))\<rparr>;
             s3 = emit (PrepareVolumePath (dstparams s2)) s2
         in case prepareVolumePath_dstparams e of
              Inl x \<Rightarrow> (Some x, s3)
            | Inr fname \<Rightarrow>
                seqs [try_finally (dump_params e fname)
                        (call (TeardownVolumePath (dstparams s3))
                           (teardownVolumePath_dstparams e)),
                      call (SetDownStatus ''SAVE_STATE_SUCCEEDED'') (vm_setDownStatus e),
                      set_message ''SaveState done''] s3))"


subsection \<open>SourceThread: the underlying migration\<close>

text \<open>What the other threads do to the shared state while \<open>migrateToURI2\<close> blocks: an
  iteration of the monitor's loop, a \<open>getStat\<close> from the API (its return value is recorded
  in the trace), or a \<open>stop\<close>.\<close>

fun concurrent_action :: "env \<Rightarrow> state \<Rightarrow> action \<Rightarrow> state" where
  "concurrent_action e s (MonitorTick t) =
     (case monitorThread s of
        None \<Rightarrow> s
      | Some m \<Rightarrow>
          (case MonitorThread_iteration t m of
             (evs, m1) \<Rightarrow> s\<lparr>monitorThread := Some m1, trace := trace s @ evs\<rparr>))"
| "concurrent_action e s GetStatCall =
     (case getStat s of (st, s1) \<Rightarrow> emit (StatReturned st) s1)"
| "concurrent_action e s StopCall = stop_call e s"

text \<open>The file branch: \<open>prepareVolumePath(self._dst)\<close>, then \<open>try: save finally: teardown\<close>.\<close>

definition save_to_volume :: "env \<Rightarrow> proc" where
  "save_to_volume e s =
     (let s1 = emit (PrepareVolumePath (dst s)) s in
      case prepareVolumePath_dst e of
        Inl x \<Rightarrow> (Some x, s1)
      | Inr fname \<Rightarrow>
          try_finally (call (DomSave fname) (dom_save e))
            (call (TeardownVolumePath (dst s1)) (teardownVolumePath_dst e)) s1)"

definition hibernate :: "env \<Rightarrow> proc" where
  "hibernate e =
     seqs [call HookBeforeVmHibernate (before_vm_hibernate e),
           except_reraise
             (seqs [call StatsPause (vmStats_pause e), save_to_volume e])
             (call StatsCont (vmStats_cont e))]"

text \<open>The remote branch. The hooks of the custom devices run in order and stop at the
  first that raises.\<close>

fun device_hooks :: "exn option list \<Rightarrow> proc" where
  "device_hooks [] s = (None, s)"
| "device_hooks (r # rs) s =
     (case r of
        Some x \<Rightarrow> (Some x, emit HookBeforeDeviceMigrateSource s)
      | None \<Rightarrow> device_hooks rs (emit HookBeforeDeviceMigrateSource s))"

definition migration_create :: "env \<Rightarrow> proc" where
  "migration_create e s =
     (let s1 = emit (MigrationCreate (machineParams s)) s in
      case migrationCreate e of
        Inl x \<Rightarrow> (Some x, s1)
      | Inr response \<Rightarrow>
          if code response \<noteq> 0 then
            (Some (OtherError (''migration destination error: '' @ message response)),
             s1\<lparr>status := response\<rparr>)
          else (None, s1))"

text \<open>The destination and migration URIs; \<open>self.remoteHost\<close> is an attribute that only
  \<open>_setupVdsConnection\<close> sets.\<close>

definition uris :: "env \<Rightarrow> state \<Rightarrow> exn + string \<times> string" where
  "uris e s =
     (case remoteHost s of
        None \<Rightarrow> Inl (OtherError ''AttributeError'')
      | Some host \<Rightarrow>
         (let duri = ''qemu+'' @ (if cfg_ssl e then ''tls'' else ''tcp'') @ ''://'' @ host
                       @ ''/system'' in
          case map_of (conf s) ''_migrationParams'' of
            None \<Rightarrow> Inl (OtherError ''KeyError'')
          | Some mp \<Rightarrow>
             (case py_getitem mp ''dstqemu'' of
                Inl x \<Rightarrow> Inl x
              | Inr q \<Rightarrow>
                  Inr (duri, ''tcp://'' @ (if py_truthy q then py_str e q else host)))))"

text \<open>\<open>DowntimeThread(self._vm, int(self._downtime))\<close>: the conversion or the constructor
  may raise; the thread is started by its constructor.\<close>

definition start_downtime :: "env \<Rightarrow> proc" where
  "start_downtime e s =
     (case downtime_thread e of Some x \<Rightarrow> (Some x, s) | None \<Rightarrow> (None, emit DowntimeStart s))"

definition start_monitor :: "env \<Rightarrow> rat \<Rightarrow> proc" where
  "start_monitor e startTime s =
     (if cfg_monitor_interval e \<noteq> 0 then
        (None, emit MonitorStart
           (s\<lparr>monitorThread :=
                Some (MonitorThread_run_begin (conf_memSize e) (cfg_max_time_per_gib e)
                        (cfg_progress_timeout e) (time_monitor e)
                        (MonitorThread_init startTime))\<rparr>))
      else (None, s))"

text \<open>\<open>self._vm._dom.migrateToURI2(...)\<close>, blocking while the other threads act.\<close>

definition hypervisor_migrate :: "env \<Rightarrow> string \<Rightarrow> string \<Rightarrow> proc" where
  "hypervisor_migrate e duri muri s =
     (let s1 = emit (MigrateToURI2 duri muri (tunneled s) (abortOnError s)
                       (cfg_max_bandwidth e)) s
      in (migrateToURI2 e, foldl (concurrent_action e) s1 (during_migration e)))"

text \<open>The body of the second \<open>try\<close> (lines 304-326). \<open>spice_ticket\<close> stands for lines
  304-307, which read the configuration and may revive the display ticket. A \<open>stop\<close>
  of another thread may come in before the flag is read.\<close>

definition migrate_or_abort :: "env \<Rightarrow> string \<Rightarrow> string \<Rightarrow> proc" where
  "migrate_or_abort e duri muri s =
     (case spice_ticket e of
        Some x \<Rightarrow> (Some x, s)
      | None \<Rightarrow>
         (let s1 = emit Checkpoint (s\<lparr>preparingMigrationEvt := False\<rparr>);
              s2 = (if stop_before_migrate_check e then stop_call e s1 else s1)
          in if \<not> migrationCanceledEvt s2 then hypervisor_migrate e duri muri s2
             else raiseAbortError s2))"

text \<open>The \<open>finally\<close> of that \<open>try\<close>: \<open>t.cancel()\<close> and, with a monitor interval,
  \<open>self._monitorThread.stop()\<close>.\<close>

definition stop_threads :: "env \<Rightarrow> proc" where
  "stop_threads e s =
     (let s1 = emit DowntimeCancel s in
      if cfg_monitor_interval e \<noteq> 0 then
        (case monitorThread s1 of
           None \<Rightarrow> (Some (OtherError ''AttributeError''), s1)
         | Some m \<Rightarrow> (None, emit MonitorStop (s1\<lparr>monitorThread := Some (m\<lparr>m_stop := True\<rparr>)\<rparr>)))
      else (None, s1))"

definition migrate_remote :: "env \<Rightarrow> rat \<Rightarrow> proc" where
  "migrate_remote e startTime s =
     (case seqs [device_hooks (before_device_migrate_source e),
                 call HookBeforeVmMigrateSource (before_vm_migrate_source e),
                 migration_create e] s of
        (Some x, s1) \<Rightarrow> (Some x, s1)
      | (None, s1) \<Rightarrow>
         (case uris e s1 of
            Inl x \<Rightarrow> (Some x, s1)
          | Inr (duri, muri) \<Rightarrow>
              seqs [start_downtime e,
                    start_monitor e startTime,
                    try_finally (migrate_or_abort e duri muri) (stop_threads e)] s1))"

definition startUnderlyingMigration :: "env \<Rightarrow> rat \<Rightarrow> proc" where
  "startUnderlyingMigration e startTime s =
     (if mode s = ''file'' then hibernate e s else migrate_remote e startTime s)"

subsection \<open>SourceThread.run\<close>

text \<open>The body of the inner \<open>try\<close> (lines 233-244), after a possible \<open>stop\<close> of another
  thread.\<close>

definition set_migrationParams :: proc where
  "set_migrationParams s =
     (None, emit ConfSetMigrationParams
        (s\<lparr>conf := dict_set ''_migrationParams''
                      (PDict [(''dst'', PStr (dst s)), (''mode'', PStr (mode s)),
                              (''method'', PStr (method s)),
                              (''dstparams'', PStr (dstparams s)),
                              (''dstqemu'', PStr (dstqemu s))])
                      (conf s)\<rparr>))"

definition migrate :: "env \<Rightarrow> rat \<Rightarrow> proc" where
  "migrate e startTime s =
     (let s1 = (if stop_before_acquired_check e then stop_call e s else s) in
      if migrationCanceledEvt s1 then raiseAbortError s1
      else seqs [set_migrationParams,
                 call SaveState (vm_saveState e),
                 startUnderlyingMigration e startTime,
                 finishSuccessfully e] s1)"

text \<open>\<open>except libvirt.libvirtError as e: ...; raise\<close>\<close>

definition except_libvirtError :: "env \<Rightarrow> proc \<Rightarrow> proc" where
  "except_libvirtError e body s =
     (case body s of
        (Some (LibvirtError c), s1) \<Rightarrow>
          (Some (LibvirtError c),
           if c = Some VIR_ERR_OPERATION_ABORTED then
             s1\<lparr>status := (status s1)\<lparr>code := fst (errCode_migCancelErr e),
                                      message := ''Migration canceled''\<rparr>\<rparr>
           else s1)
      | (r, s1) \<Rightarrow> (r, s1))"

text \<open>The \<open>finally\<close> of the inner \<open>try\<close>. A bounded semaphore refuses a release beyond
  its initial value.\<close>

definition release :: proc where
  "release s =
     (if ongoing_value s \<ge> ongoing_initial s then (Some (OtherError ''ValueError''), s)
      else (None, emit SlotRelease (s\<lparr>ongoing_value := ongoing_value s + 1\<rparr>)))"

definition cleanup :: proc where
  "cleanup s =
     release (if dict_has ''_migrationParams'' (conf s)
              then emit ConfDelMigrationParams
                     (s\<lparr>conf := dict_del ''_migrationParams'' (conf s)\<rparr>)
              else s)"

text \<open>The body of the outer \<open>try\<close> (lines 227-254). \<open>acquire()\<close> blocks while the
  semaphore is at zero: a run that finds it so does not return (\<open>None\<close>). Otherwise
  the result is the exception that reaches the handler of line 255, if any, and the
  state.\<close>

definition run_body :: "env \<Rightarrow> state \<Rightarrow> (exn option \<times> state) option" where
  "run_body e s =
     (let startTime = time_start e in
      case seqs [setupVdsConnection e, setupRemoteMachineParams e, prepareGuest e] s of
        (Some x, s1) \<Rightarrow> Some (Some x, s1)
      | (None, s1) \<Rightarrow>
          if ongoing_value s1 = 0 then None
          else
            Some (try_finally (except_libvirtError e (migrate e startTime)) cleanup
                    (emit SlotAcquire (s1\<lparr>ongoing_value := ongoing_value s1 - 1\<rparr>))))"

text \<open>\<open>run\<close>: every exception of the body is handled by \<open>_recover\<close>; the result is the
  exception that leaves \<open>run\<close> (only \<open>_recover\<close> can raise one) and the final state.\<close>

definition run :: "env \<Rightarrow> state \<Rightarrow> (exn option \<times> state) option" where
  "run e s =
     (case run_body e s of
        None \<Rightarrow> None
      | Some (None, s1) \<Rightarrow> Some (None, s1)
      | Some (Some x, s1) \<Rightarrow> Some (recover e s1))"

subsection \<open>Observing a run\<close>

text \<open>The events of a trace that the properties below speak about: the slot, the
  \<open>_migrationParams\<close> key, the volume paths and files, and the hypervisor's transfer.\<close>

fun visible :: "event \<Rightarrow> bool" where
  "visible SlotAcquire = True"
| "visible SlotRelease = True"
| "visible ConfSetMigrationParams = True"
| "visible ConfDelMigrationParams = True"
| "visible (PrepareVolumePath p) = True"
| "visible (TeardownVolumePath p) = True"
| "visible (DomSave f) = True"
| "visible (OpenWrite f) = True"
| "visible (PickleDump f d) = True"
| "visible (MigrateToURI2 duri muri tun ab bw) = True"
| "visible _ = False"

definition vis :: "state \<Rightarrow> event list" where
  "vis s = filter visible (trace s)"

fun is_slot :: "event \<Rightarrow> bool" where
  "is_slot SlotAcquire = True"
| "is_slot SlotRelease = True"
| "is_slot _ = False"

fun is_transfer :: "event \<Rightarrow> bool" where
  "is_transfer (MigrateToURI2 duri muri tun ab bw) = True"
| "is_transfer (DomSave f) = True"
| "is_transfer _ = False"

fun is_migrateToURI2 :: "event \<Rightarrow> bool" where
  "is_migrateToURI2 (MigrateToURI2 duri muri tun ab bw) = True"
| "is_migrateToURI2 _ = False"

fun is_volume :: "event \<Rightarrow> bool" where
  "is_volume (PrepareVolumePath p) = True"
| "is_volume (TeardownVolumePath p) = True"
| "is_volume (DomSave f) = True"
| "is_volume (OpenWrite f) = True"
| "is_volume (PickleDump f d) = True"
| "is_volume _ = False"

text \<open>The events about the slot, the key and the transfer together.\<close>

definition is_lifecycle :: "event \<Rightarrow> bool" where
  "is_lifecycle ev =
     (is_slot ev \<or> is_transfer ev \<or> ev = ConfSetMigrationParams \<or> ev = ConfDelMigrationParams)"

text \<open>The values passed to \<open>migrateSetMaxDowntime\<close>, the dictionaries passed to
  \<open>pickle.dump\<close>, and the progress values returned by \<open>getStat\<close> while the code is 0.\<close>

fun downtime_calls :: "event list \<Rightarrow> int list" where
  "downtime_calls [] = []"
| "downtime_calls (SetMaxDowntime v # evs) = v # downtime_calls evs"
| "downtime_calls (ev # evs) = downtime_calls evs"

fun pickled :: "event list \<Rightarrow> pydict list" where
  "pickled [] = []"
| "pickled (PickleDump f d # evs) = d # pickled evs"
| "pickled (ev # evs) = pickled evs"

fun reported_progress :: "event list \<Rightarrow> int list" where
  "reported_progress [] = []"
| "reported_progress (StatReturned st # evs) =
     (case progress st of
        Some p \<Rightarrow> if code st = 0 then p # reported_progress evs else reported_progress evs
      | None \<Rightarrow> reported_progress evs)"
| "reported_progress (ev # evs) = reported_progress evs"

text \<open>The shape of the volume and file events of a file-mode run. \<open>_finishSuccessfully\<close>
  prepares the path \<open>p\<close>, and if that gives a file name, opens the file, dumps a
  dictionary without the transient keys unless the open failed, and tears the path down
  in each case.\<close>

definition no_transient :: "pydict \<Rightarrow> bool" where
  "no_transient d =
     (\<not> dict_has ''displayIp'' d \<and> \<not> dict_has ''display'' d \<and> \<not> dict_has ''pid'' d)"

definition params_written :: "env \<Rightarrow> string \<Rightarrow> event list \<Rightarrow> bool" where
  "params_written e p X =
     (case prepareVolumePath_dstparams e of
        Inl x \<Rightarrow> X = [PrepareVolumePath p]
      | Inr g \<Rightarrow>
          X = [PrepareVolumePath p, OpenWrite g, TeardownVolumePath p] \<or>
          (case pickled X of
             [d] \<Rightarrow> no_transient d \<and>
                    X = [PrepareVolumePath p, OpenWrite g, PickleDump g d, TeardownVolumePath p]
           | _ \<Rightarrow> False))"

text \<open>The file branch of \<open>_startUnderlyingMigration\<close> prepares the path \<open>d\<close>, and if that
  gives a file name, saves the domain to it and tears the path down; the events of
  \<open>_finishSuccessfully\<close> can only follow these three.\<close>

definition state_saved :: "env \<Rightarrow> string \<Rightarrow> string \<Rightarrow> event list \<Rightarrow> bool" where
  "state_saved e d p X =
     (X = [] \<or>
      (case prepareVolumePath_dst e of
         Inl x \<Rightarrow> X = [PrepareVolumePath d]
       | Inr f \<Rightarrow>
           take 3 X = [PrepareVolumePath d, DomSave f, TeardownVolumePath d] \<and>
           (drop 3 X = [] \<or> params_written e p (drop 3 X))))"

text \<open>Two states that agree on the request, the VM's configuration and the semaphore.\<close>

definition frame :: "state \<Rightarrow> state \<Rightarrow> bool" where
  "frame s s' =
     (dst s' = dst s \<and> dstparams s' = dstparams s \<and> mode s' = mode s \<and>
      method s' = method s \<and> dstqemu s' = dstqemu s \<and> conf s' = conf s \<and>
      ongoing_value s' = ongoing_value s \<and> ongoing_initial s' = ongoing_initial s)"

definition quiet :: "state \<Rightarrow> state \<Rightarrow> bool" where
  "quiet s s' = (frame s s' \<and> vis s' = vis s)"


text \<open>The body of \<open>run\<close> ends without an exception: the migration has succeeded.\<close>

definition succeeds :: "env \<Rightarrow> state \<Rightarrow> bool" where
  "succeeds e s = (case run_body e s of Some (None, s1) \<Rightarrow> True | _ \<Rightarrow> False)"

text \<open>The hypervisor's \<open>save\<close> raises \<open>x\<close>, and the two cleanup calls that follow
  (the teardown of the volume path and the resumption of the statistics) raise nothing,
  so that \<open>x\<close> is the exception that leaves the file branch.\<close>

definition save_raises :: "env \<Rightarrow> exn \<Rightarrow> bool" where
  "save_raises e x =
     (dom_save e = Some x \<and> teardownVolumePath_dst e = None \<and> vmStats_cont e = None)"


text \<open>What the body of the inner \<open>try\<close> adds to the visible trace after it has set the
  key, when \<open>r\<close> is the exception that leaves it: in file mode the volume events, all
  seven if there is no exception; otherwise nothing, or the call of \<open>migrateToURI2\<close>. An
  exception of the transfer call is the one that leaves the body.\<close>

definition body_events :: "env \<Rightarrow> state \<Rightarrow> exn option \<Rightarrow> event list \<Rightarrow> bool" where
  "body_events e s r U =
     (if mode s = ''file''
      then state_saved e (dst s) (dstparams s) U \<and> (r = None \<longrightarrow> length U = 7) \<and>
           (3 \<le> length U \<and> teardownVolumePath_dst e = None \<and> vmStats_cont e = None \<and>
            dom_save e \<noteq> None \<longrightarrow> r = dom_save e)
      else (U = [] \<and> r \<noteq> None) \<or>
           (length U = 1 \<and> is_migrateToURI2 (hd U) \<and>
            (migrateToURI2 e \<noteq> None \<longrightarrow> r = migrateToURI2 e)))"

text \<open>A step of the remote branch before the hypervisor call raises or is refused by the
  peer; and a cancellation is there for one of the two reads of the flag.\<close>

definition remote_blocked :: "env \<Rightarrow> bool" where
  "remote_blocked e =
     (vm_saveState e \<noteq> None \<or>
      (\<exists>r\<in>set (before_device_migrate_source e). r \<noteq> None) \<or>
      before_vm_migrate_source e \<noteq> None \<or>
      (case migrationCreate e of Inl x \<Rightarrow> True | Inr response \<Rightarrow> code response \<noteq> 0) \<or>
      downtime_thread e \<noteq> None \<or> spice_ticket e \<noteq> None)"

definition cancel_seen :: "env \<Rightarrow> state \<Rightarrow> bool" where
  "cancel_seen e s =
     (migrationCanceledEvt s \<or> stop_before_acquired_check e \<or> stop_before_migrate_check e)"

text \<open>Two states with the same status code and message.\<close>

definition same_outcome :: "state \<Rightarrow> state \<Rightarrow> bool" where
  "same_outcome s s' =
     (code (status s') = code (status s) \<and> message (status s') = message (status s))"

text \<open>The value of the monitor's \<open>progress\<close> after each iteration of its loop, and a run
  of samples that all report the total \<open>T\<close> and a remaining amount that is never negative
  and never more than at the sample before (at first, never more than \<open>r\<close>).\<close>

fun progress_seq :: "tick list \<Rightarrow> monitor_thread \<Rightarrow> int list" where
  "progress_seq [] m = []"
| "progress_seq (t # ts) m =
     (let m1 = snd (MonitorThread_iteration t m) in m_progress m1 # progress_seq ts m1)"

fun converging :: "int \<Rightarrow> int \<Rightarrow> tick list \<Rightarrow> bool" where
  "converging T r [] = True"
| "converging T r (t # ts) =
     (case tick_jobInfo t of
        Inl x \<Rightarrow> converging T r ts
      | Inr j \<Rightarrow> dataTotal j = T \<and> 0 \<le> dataRemaining j \<and> dataRemaining j \<le> r \<and>
                 converging T (dataRemaining j) ts)"












subsection \<open>Sample inputs\<close>

text \<open>An environment in which every outside call succeeds: the peer does not know the VM
  (a non-zero code from \<open>getVmStats\<close>), accepts it, and nothing is cancelled. The other
  sample environments vary it. \<open>sample_remote\<close> and \<open>sample_file\<close> are fresh driver
  threads for a migration to a peer and for a save to a file, with one free slot.\<close>

definition sample_params :: pydict where
  "sample_params =
     [(''vmId'', PStr ''vm1''), (''display'', PStr ''qxl''), (''displayIp'', PStr ''0''),
      (''pid'', PStr ''4321''),
      (''drives'', PList [PDict [(''device'', PStr ''cdrom''), (''path'', PStr ''/iso'')],
                          PDict [(''device'', PStr ''disk''), (''path'', PStr ''/img'')]])]"

definition sample_tick :: "rat \<Rightarrow> int \<Rightarrow> int \<Rightarrow> tick" where
  "sample_tick now remaining tot =
     \<lparr>tick_now = now,
      tick_jobInfo = Inr \<lparr>jobType = 2, timeElapsed = 1000, dataTotal = tot,
                          dataRemaining = remaining\<rparr>,
      tick_abortJob = None\<rparr>"

definition sample_env :: env where
  "sample_env =
     \<lparr>errCode_exist = (4, ''Virtual machine already exists''),
      errCode_noConPeer = (10, ''Could not connect to peer VDS''),
      errCode_migrateErr = (12, ''Fatal error during migration''),
      errCode_migCancelErr = (82, ''Migration not in progress''),
      cfg_ssl = True, cfg_max_bandwidth = 32, cfg_monitor_interval = 10,
      cfg_max_time_per_gib = 64, cfg_progress_timeout = 150,
      time_start = 1000, time_params = 1001, time_monitor = 1002,
      py_str = (\<lambda>v. case v of PStr cs \<Rightarrow> cs | _ \<Rightarrow> ''?''),
      hostPort = Inr ''peer'', connect = None, getVmStats = Inr 1,
      migrationCreate = Inr \<lparr>code = 0, message = ''Done'', progress = None\<rparr>,
      vm_startTime = 400, vm_status = Inr sample_params,
      vm_getStats = Inr [(''username'', PStr ''root''), (''session'', PStr ''Locked'')],
      XMLDesc = Inr ''<domain/>'', isResponsive = Inr True, desktopLock = None,
      session_poll = (\<lambda>k. Inr ''Locked''), vm_pause = None, vm_cont = None,
      vm_saveState = None, vm_setDownStatus = None, vmStats_pause = None,
      vmStats_cont = None, conf_memSize = Inr 2048, spice_ticket = None,
      downtime_thread = None,
      before_vm_hibernate = None, before_device_migrate_source = [None],
      before_vm_migrate_source = None,
      prepareVolumePath_dst = Inr ''/rhev/state'', teardownVolumePath_dst = None,
      prepareVolumePath_dstparams = Inr ''/rhev/params'',
      teardownVolumePath_dstparams = None, open_file = None, pickle_dump = None,
      dom_save = None, migrateToURI2 = None, abortJob = None,
      stop_before_acquired_check = False, stop_before_migrate_check = False,
      during_migration = []\<rparr>"

definition sample_remote :: state where
  "sample_remote =
     SourceThread_init [(''memSize'', PStr ''2048''), (''display'', PStr ''qxl'')] 1 1
       ''peer'' [] ''remote'' ''online'' False [] False"

definition sample_file :: state where
  "sample_file =
     SourceThread_init [(''memSize'', PStr ''2048''), (''display'', PStr ''qxl'')] 1 1
       ''vol-state'' ''vol-params'' ''file'' ''online'' False [] False"

text \<open>Variations: the peer answers the probe with code 0; \<open>abortJob\<close> fails because no
  job is active; a \<open>stop\<close> during the transfer makes \<open>migrateToURI2\<close> raise the
  aborted-operation error.\<close>

definition sample_env_exist :: env where
  "sample_env_exist = sample_env\<lparr>getVmStats := Inr 0\<rparr>"

definition sample_env_nojob :: env where
  "sample_env_nojob = sample_env\<lparr>abortJob := Some (LibvirtError (Some 55))\<rparr>"

definition sample_env_cancel :: env where
  "sample_env_cancel =
     sample_env\<lparr>during_migration := [StopCall],
                 migrateToURI2 := Some (LibvirtError (Some VIR_ERR_OPERATION_ABORTED))\<rparr>"


text \<open>During the transfer the monitor sees the remaining data grow from 10 to 50 of 100
  and then fall to 0, a \<open>getStat\<close> follows each sample, and then \<open>migrateToURI2\<close> fails.\<close>

definition sample_env_stall :: env where
  "sample_env_stall =
     sample_env\<lparr>during_migration :=
                   [MonitorTick (sample_tick 1010 10 100), GetStatCall,
                    MonitorTick (sample_tick 1020 50 100), GetStatCall,
                    MonitorTick (sample_tick 1030 0 100), GetStatCall],
                 migrateToURI2 := Some (LibvirtError (Some 1))\<rparr>"




text \<open>A save to a file whose two destination fields name the same volume, which the
  volume helper resolves to the same file both times.\<close>

definition sample_file_same :: state where
  "sample_file_same =
     SourceThread_init [(''memSize'', PStr ''2048''), (''display'', PStr ''qxl'')] 1 1
       ''vol'' ''vol'' ''file'' ''online'' False [] False"

definition sample_env_same :: env where
  "sample_env_same = sample_env\<lparr>prepareVolumePath_dstparams := Inr ''/rhev/state''\<rparr>"

section \<open>Properties\<close>

subsection \<open>Sequencing and the visible trace\<close>

lemma vis_emit: "vis (emit ev s) = vis s @ (if visible ev then [ev] else [])"
  by (simp add: vis_def emit_def)

lemma frame_refl: "frame s s" by (simp add: frame_def)
lemma frame_trans: "frame s s1 \<Longrightarrow> frame s1 s2 \<Longrightarrow> frame s s2" by (simp add: frame_def)
lemma frame_emit: "frame s (emit ev s)" by (simp add: frame_def emit_def)

lemma quiet_refl: "quiet s s" by (simp add: quiet_def frame_refl)
lemma quiet_trans: "quiet s s1 \<Longrightarrow> quiet s1 s2 \<Longrightarrow> quiet s s2"
  by (auto simp: quiet_def intro: frame_trans)
lemma quiet_emit: "\<not> visible ev \<Longrightarrow> quiet s (emit ev s)"
  by (simp add: quiet_def frame_emit vis_emit)

lemma quiet_call: "\<not> visible ev \<Longrightarrow> quiet s (snd (call ev r s))"
  by (simp add: call_def quiet_emit)

lemma quiet_seqs:
  "(\<And>f s. f \<in> set fs \<Longrightarrow> quiet s (snd (f s))) \<Longrightarrow> quiet s (snd (seqs fs s))"
proof (induction fs arbitrary: s)
  case Nil
  show ?case by (simp add: quiet_refl)
next
  case (Cons f fs)
  obtain r s1 where fs1: "f s = (r, s1)" by (cases "f s")
  have q1: "quiet s s1" using Cons.prems [of f s] fs1 by simp
  show ?case
  proof (cases r)
    case None
    have "quiet s1 (snd (seqs fs s1))" using Cons.IH Cons.prems by simp
    then show ?thesis using fs1 None q1 by (auto intro: quiet_trans)
  next
    case (Some x)
    then show ?thesis using fs1 q1 by simp
  qed
qed

lemma quiet_try_finally:
  "(\<And>s. quiet s (snd (f s))) \<Longrightarrow> (\<And>s. quiet s (snd (g s))) \<Longrightarrow>
   quiet s (snd (try_finally f g s))"
proof -
  assume f: "\<And>s. quiet s (snd (f s))" and g: "\<And>s. quiet s (snd (g s))"
  obtain r s1 where fs1: "f s = (r, s1)" by (cases "f s")
  obtain r2 s2 where gs2: "g s1 = (r2, s2)" by (cases "g s1")
  have "quiet s s1" using f [of s] fs1 by simp
  moreover have "quiet s1 s2" using g [of s1] gs2 by simp
  ultimately have "quiet s s2" by (rule quiet_trans)
  then show ?thesis using fs1 gs2 by (cases r2) (simp_all add: try_finally_def)
qed

lemma quiet_setupVdsConnection: "quiet s (snd (setupVdsConnection e s))"
  by (auto simp: setupVdsConnection_def quiet_def frame_def vis_def emit_def Let_def
      split: sum.splits option.splits)

lemma quiet_setupRemoteMachineParams: "quiet s (snd (setupRemoteMachineParams e s))"
  by (auto simp: setupRemoteMachineParams_def quiet_def frame_def vis_def Let_def
      split: sum.splits option.splits prod.splits)

lemma quiet_wait_for_lock: "quiet s (snd (wait_for_lock e n s))"
proof (induction n arbitrary: s)
  case 0
  show ?case by (simp add: quiet_refl)
next
  case (Suc n)
  have "quiet s (emit Sleep s)" by (simp add: quiet_emit)
  moreover have "quiet (emit Sleep s) (snd (wait_for_lock e n (emit Sleep s)))" by (rule Suc.IH)
  ultimately have "quiet s (snd (wait_for_lock e n (emit Sleep s)))" by (rule quiet_trans)
  then show ?case
    by (auto simp: quiet_refl quiet_emit split: sum.splits)
qed

lemma quiet_prepareGuest: "quiet s (snd (prepareGuest e s))"
proof (cases "mode s = ''file''")
  case True
  show ?thesis
  proof (cases "isResponsive e")
    case (Inl x)
    then show ?thesis using True by (simp add: prepareGuest_def quiet_refl)
  next
    case (Inr b)
    have "quiet s (snd (seqs [call DesktopLock (desktopLock e),
                   wait_for_lock e (if b then 30 else 0),
                   call (VmPause ''Saving State'') (vm_pause e)] s))"
      by (rule quiet_seqs) (auto simp: quiet_call quiet_wait_for_lock)
    then show ?thesis using True Inr by (simp add: prepareGuest_def Let_def)
  qed
next
  case False
  then show ?thesis by (simp add: prepareGuest_def quiet_def frame_def vis_def)
qed

lemma quiet_recover: "quiet s (snd (recover e s))"
  by (auto simp: recover_def quiet_def frame_def vis_def emit_def Let_def
      split: option.splits)

subsection \<open>Dictionaries and the success path\<close>

lemma discard_has: "\<not> dict_has k (dict_discard k d)"
  by (simp add: dict_discard_def dict_has_def dict_del_def delete_conv')

lemma discard_keeps: "\<not> dict_has k d \<Longrightarrow> \<not> dict_has k (dict_discard k' d)"
  by (simp add: dict_discard_def dict_has_def dict_del_def delete_conv')

lemma no_transient_discard:
  "no_transient (dict_discard ''pid'' (dict_discard ''display'' (dict_discard ''displayIp'' d)))"
  by (simp add: no_transient_def discard_has discard_keeps)

lemma finish_remote:
  "mode s \<noteq> ''file'' \<Longrightarrow> quiet s (snd (finishSuccessfully e s))"
  by (auto simp: finishSuccessfully_def Let_def call_def set_message_def quiet_def frame_def
      vis_def emit_def split: option.splits)

lemma finish_file:
  assumes "mode s = ''file''" and "finishSuccessfully e s = (r, s')"
  shows "frame s s' \<and>
         (\<exists>P. vis s' = vis s @ P \<and> params_written e (dstparams s) P \<and>
              (r = None \<longrightarrow> (\<exists>g d. P = [PrepareVolumePath (dstparams s), OpenWrite g,
                                 PickleDump g d, TeardownVolumePath (dstparams s)])))"
  using assms no_transient_discard [of "machineParams s"]
  by (auto simp: finishSuccessfully_def Let_def call_def set_message_def frame_def
      vis_def emit_def try_finally_def dump_params_def params_written_def
      split: option.splits sum.splits prod.splits if_splits)

subsection \<open>The transfer\<close>

lemma hibernate_sum:
  assumes "hibernate e s = (r, s')"
  shows "frame s s' \<and>
         (\<exists>V. vis s' = vis s @ V \<and> state_saved e (dst s) p V \<and> length V \<le> 3 \<and>
              (r = None \<longrightarrow> length V = 3) \<and>
              (\<forall>x. save_raises e x \<and> length V = 3 \<longrightarrow> r = Some x))"
  using assms
  by (auto simp: hibernate_def except_reraise_def save_to_volume_def call_def
      try_finally_def frame_def vis_def emit_def Let_def state_saved_def save_raises_def
      split: option.splits sum.splits prod.splits if_splits)

lemma conc_action:
  "quiet s (concurrent_action e s a) \<and> same_outcome s (concurrent_action e s a) \<and>
   (monitorThread s \<noteq> None \<longrightarrow> monitorThread (concurrent_action e s a) \<noteq> None)"
  by (cases a)
     (auto simp: quiet_def frame_def vis_def emit_def getStat_def stop_def stop_call_def Let_def
       same_outcome_def MonitorThread_iteration_def monitor_abort_def monitor_update_def
       split: option.splits sum.splits prod.splits exn.splits if_splits)

lemma conc_fold:
  "quiet s (foldl (concurrent_action e) s as) \<and> same_outcome s (foldl (concurrent_action e) s as) \<and>
   (monitorThread s \<noteq> None \<longrightarrow> monitorThread (foldl (concurrent_action e) s as) \<noteq> None)"
proof (induction as arbitrary: s)
  case Nil
  show ?case by (simp add: quiet_refl same_outcome_def)
next
  case (Cons a as)
  show ?case
    using conc_action [of s e a] Cons.IH [of "concurrent_action e s a"]
    by (auto simp: same_outcome_def intro: quiet_trans)
qed

lemma device_hooks_sum:
  "quiet s (snd (device_hooks rs s)) \<and> same_outcome s (snd (device_hooks rs s)) \<and>
   monitorThread (snd (device_hooks rs s)) = monitorThread s \<and>
   remoteHost (snd (device_hooks rs s)) = remoteHost s \<and>
   tunneled (snd (device_hooks rs s)) = tunneled s \<and>
   abortOnError (snd (device_hooks rs s)) = abortOnError s"
proof (induction rs arbitrary: s)
  case Nil
  show ?case by (simp add: quiet_refl same_outcome_def)
next
  case (Cons r rs)
  have q: "quiet s (emit HookBeforeDeviceMigrateSource s)" by (simp add: quiet_emit)
  show ?case
  proof (cases r)
    case None
    then show ?thesis
      using Cons.IH [of "emit HookBeforeDeviceMigrateSource s"] q
      by (auto simp: same_outcome_def emit_def intro: quiet_trans)
  next
    case (Some x)
    then show ?thesis using q by (simp add: same_outcome_def emit_def)
  qed
qed

text \<open>the statements of the remote branch before the URIs\<close>
lemma remote_prefix_sum:
  assumes "seqs [device_hooks (before_device_migrate_source e),
                 call HookBeforeVmMigrateSource (before_vm_migrate_source e),
                 migration_create e] s = (r, s1)"
  shows "quiet s s1 \<and> (r = None \<longrightarrow> same_outcome s s1) \<and> monitorThread s1 = monitorThread s
         \<and> tunneled s1 = tunneled s \<and> abortOnError s1 = abortOnError s"
proof -
  obtain r0 s0 where d: "device_hooks (before_device_migrate_source e) s = (r0, s0)"
    by (cases "device_hooks (before_device_migrate_source e) s")
  have q0: "quiet s s0 \<and> same_outcome s s0 \<and> monitorThread s0 = monitorThread s
      \<and> tunneled s0 = tunneled s \<and> abortOnError s0 = abortOnError s"
    using device_hooks_sum [of s "before_device_migrate_source e"] d by simp
  show ?thesis
    using assms d q0
    by (auto simp: call_def migration_create_def Let_def quiet_def frame_def vis_def emit_def
        same_outcome_def split: option.splits sum.splits if_splits)
qed

lemma migrate_or_abort_sum:
  assumes "migrate_or_abort e d m s = (r, s')"
  shows "frame s s' \<and> same_outcome s s' \<and>
         (monitorThread s \<noteq> None \<longrightarrow> monitorThread s' \<noteq> None) \<and>
         ((vis s' = vis s \<and> r \<noteq> None) \<or>
          (vis s' = vis s @ [MigrateToURI2 d m (tunneled s) (abortOnError s) (cfg_max_bandwidth e)]
           \<and> r = migrateToURI2 e))"
proof (cases "spice_ticket e")
  case (Some x)
  then have "r = Some x \<and> s' = s" using assms
    by (simp add: migrate_or_abort_def)
  then show ?thesis by (simp add: frame_def same_outcome_def)
next
  case None
  define s1 where "s1 = emit Checkpoint (s\<lparr>preparingMigrationEvt := False\<rparr>)"
  define s2 where "s2 = (if stop_before_migrate_check e then stop_call e s1 else s1)"
  have q2: "quiet s s2 \<and> same_outcome s s2 \<and> monitorThread s2 = monitorThread s
            \<and> tunneled s2 = tunneled s \<and> abortOnError s2 = abortOnError s"
    by (auto simp: s1_def s2_def stop_def stop_call_def Let_def quiet_def frame_def vis_def emit_def
        same_outcome_def split: option.splits exn.splits)
  show ?thesis
  proof (cases "migrationCanceledEvt s2")
    case True
    then have "r \<noteq> None \<and> s' = s2"
      using assms None by (auto simp: migrate_or_abort_def Let_def s1_def s2_def raiseAbortError_def)
    then show ?thesis using q2 by (auto simp: quiet_def)
  next
    case False
    define s3 where "s3 = emit (MigrateToURI2 d m (tunneled s2) (abortOnError s2)
                       (cfg_max_bandwidth e)) s2"
    have r: "r = migrateToURI2 e \<and> s' = foldl (concurrent_action e) s3 (during_migration e)"
      using assms None False
      by (auto simp: migrate_or_abort_def Let_def s1_def s2_def s3_def hypervisor_migrate_def)
    have q3: "frame s2 s3 \<and> same_outcome s2 s3 \<and> monitorThread s3 = monitorThread s2 \<and>
              vis s3 = vis s2 @ [MigrateToURI2 d m (tunneled s2) (abortOnError s2) (cfg_max_bandwidth e)]"
      by (simp add: s3_def frame_def vis_def same_outcome_def emit_def)
    show ?thesis
      using r q2 q3 conc_fold [of s3 e "during_migration e"]
      by (auto simp: quiet_def same_outcome_def intro: frame_trans)
  qed
qed

lemma stop_threads_sum:
  assumes "stop_threads e s = (r, s')"
  shows "quiet s s' \<and> same_outcome s s' \<and>
         (cfg_monitor_interval e \<noteq> 0 \<longrightarrow> monitorThread s \<noteq> None \<longrightarrow> r = None) \<and>
         (cfg_monitor_interval e = 0 \<longrightarrow> r = None)"
  using assms
  by (auto simp: stop_threads_def Let_def quiet_def frame_def vis_def emit_def same_outcome_def
      split: option.splits if_splits)

lemma start_threads_sum:
  assumes "seqs [start_downtime e, start_monitor e st] s = (r, s')"
  shows "quiet s s' \<and> same_outcome s s' \<and> tunneled s' = tunneled s \<and> abortOnError s' = abortOnError s \<and>
         (r = None \<longrightarrow> cfg_monitor_interval e \<noteq> 0 \<longrightarrow> monitorThread s' \<noteq> None)"
  using assms
  by (auto simp: start_downtime_def start_monitor_def Let_def quiet_def frame_def vis_def emit_def
      same_outcome_def split: option.splits if_splits)

lemma migrate_remote_sum:
  assumes "migrate_remote e st s = (r, s')"
  shows "frame s s' \<and>
         ((vis s' = vis s \<and> r \<noteq> None) \<or>
          (\<exists>d m. vis s' = vis s @ [MigrateToURI2 d m (tunneled s) (abortOnError s) (cfg_max_bandwidth e)]
             \<and> r = migrateToURI2 e \<and> same_outcome s s'))"
proof -
  obtain r1 s1 where p: "seqs [device_hooks (before_device_migrate_source e),
                 call HookBeforeVmMigrateSource (before_vm_migrate_source e),
                 migration_create e] s = (r1, s1)"
    by (cases "seqs [device_hooks (before_device_migrate_source e),
                 call HookBeforeVmMigrateSource (before_vm_migrate_source e),
                 migration_create e] s")
  note q1 = remote_prefix_sum [OF p]
  show ?thesis
  proof (cases r1)
    case (Some x)
    then have "r \<noteq> None \<and> s' = s1" using assms p by (auto simp: migrate_remote_def)
    then show ?thesis using q1 by (auto simp: quiet_def)
  next
    case None
    note r1 = None
    show ?thesis
    proof (cases "uris e s1")
      case (Inl x)
      then have "r \<noteq> None \<and> s' = s1" using assms p r1 by (auto simp: migrate_remote_def)
      then show ?thesis using q1 by (auto simp: quiet_def)
    next
      case (Inr dm)
      obtain d m where dm: "dm = (d, m)" by (cases dm)
      obtain r2 s2 where t: "seqs [start_downtime e, start_monitor e st] s1 = (r2, s2)"
        by (cases "seqs [start_downtime e, start_monitor e st] s1")
      note q2 = start_threads_sum [OF t]
      show ?thesis
      proof (cases r2)
        case (Some x)
        then have "r \<noteq> None \<and> s' = s2"
          using assms p r1 Inr dm t
          by (auto simp: migrate_remote_def split: option.splits prod.splits)
        then show ?thesis using q1 q2 by (auto simp: quiet_def intro: frame_trans)
      next
        case None
        obtain r3 s3 where m: "migrate_or_abort e d m s2 = (r3, s3)"
          by (cases "migrate_or_abort e d m s2")
        obtain r4 s4 where f: "stop_threads e s3 = (r4, s4)"
          by (cases "stop_threads e s3")
        note q3 = migrate_or_abort_sum [OF m]
        note q4 = stop_threads_sum [OF f]
        have mon: "cfg_monitor_interval e \<noteq> 0 \<longrightarrow> monitorThread s3 \<noteq> None"
          using q2 q3 None by simp
        have r4: "r4 = None" using q4 mon by blast
        have res: "r = r3 \<and> s' = s4"
          using assms p r1 Inr dm t None m f r4
          by (auto simp: migrate_remote_def try_finally_def split: option.splits prod.splits)
        have fr: "frame s s4"
          using q1 q2 q3 q4 by (auto simp: quiet_def intro: frame_trans)
        have so: "r1 = None \<longrightarrow> same_outcome s s4"
          using q1 q2 q3 q4 by (auto simp: same_outcome_def)
        show ?thesis
          using res fr so r1 q1 q2 q3 q4
          by (auto simp: quiet_def)
      qed
    qed
  qed
qed

lemma startUnderlying_sum:
  assumes "startUnderlyingMigration e st s = (r, s')"
  shows "frame s s' \<and>
         (\<exists>U. vis s' = vis s @ U \<and>
           (if mode s = ''file''
            then state_saved e (dst s) p U \<and> length U \<le> 3 \<and> (r = None \<longrightarrow> length U = 3) \<and>
                 (\<forall>x. save_raises e x \<and> length U = 3 \<longrightarrow> r = Some x)
            else (U = [] \<and> r \<noteq> None) \<or>
                 (\<exists>d m. U = [MigrateToURI2 d m (tunneled s) (abortOnError s) (cfg_max_bandwidth e)]
                    \<and> r = migrateToURI2 e)))"
proof (cases "mode s = ''file''")
  case True
  then have "hibernate e s = (r, s')" using assms by (simp add: startUnderlyingMigration_def)
  from hibernate_sum [OF this, of p] show ?thesis using True by simp
next
  case False
  then have "migrate_remote e st s = (r, s')" using assms by (simp add: startUnderlyingMigration_def)
  from migrate_remote_sum [OF this] show ?thesis using False by auto
qed

lemma state_saved_append:
  assumes "state_saved e d p V" and "length V = 3" and "params_written e p P"
  shows "state_saved e d p (V @ P)"
  using assms by (auto simp: state_saved_def split: sum.splits)

lemma params_written_length: "params_written e p P \<Longrightarrow> 1 \<le> length P \<and> length P \<le> 4"
  by (auto simp: params_written_def split: sum.splits list.splits)

lemma migrate_sum:
  assumes "migrate e st s = (r, s')"
  shows "dst s' = dst s \<and> dstparams s' = dstparams s \<and> mode s' = mode s \<and> method s' = method s \<and>
         ongoing_value s' = ongoing_value s \<and> ongoing_initial s' = ongoing_initial s \<and>
     ((vis s' = vis s \<and> conf s' = conf s \<and> r = Some (LibvirtError (Some VIR_ERR_OPERATION_ABORTED))) \<or>
      (dict_has ''_migrationParams'' (conf s') \<and>
        (\<exists>U. vis s' = vis s @ ConfSetMigrationParams # U \<and> body_events e s r U)))"
proof -
  define s1 where "s1 = (if stop_before_acquired_check e then stop_call e s else s)"
  have q1: "quiet s s1"
    by (auto simp: s1_def stop_def stop_call_def Let_def quiet_def frame_def vis_def emit_def
        split: option.splits exn.splits)
  show ?thesis
  proof (cases "migrationCanceledEvt s1")
    case True
    then have "r = Some (LibvirtError (Some VIR_ERR_OPERATION_ABORTED)) \<and> s' = s1"
      using assms by (auto simp: migrate_def Let_def s1_def raiseAbortError_def)
    then show ?thesis using q1 by (simp add: quiet_def frame_def)
  next
    case False
    obtain r2 s2 where a: "seqs [set_migrationParams, call SaveState (vm_saveState e)] s1 = (r2, s2)"
      by (cases "seqs [set_migrationParams, call SaveState (vm_saveState e)] s1")
    have q2: "dst s2 = dst s \<and> dstparams s2 = dstparams s \<and> mode s2 = mode s \<and> method s2 = method s \<and>
         ongoing_value s2 = ongoing_value s \<and> ongoing_initial s2 = ongoing_initial s \<and>
         dict_has ''_migrationParams'' (conf s2) \<and> vis s2 = vis s @ [ConfSetMigrationParams]"
      using a q1
      by (auto simp: set_migrationParams_def call_def quiet_def frame_def vis_def emit_def
          dict_has_def dict_set_def update_conv' split: option.splits)
    show ?thesis
    proof (cases r2)
      case (Some x)
      then have "r \<noteq> None \<and> s' = s2"
        using assms False a
        by (auto simp: migrate_def Let_def s1_def [symmetric] set_migrationParams_def call_def
            split: option.splits prod.splits)
      then show ?thesis using q2 by (auto simp: state_saved_def body_events_def)
    next
      case None
      obtain r3 s3 where b: "startUnderlyingMigration e st s2 = (r3, s3)"
        by (cases "startUnderlyingMigration e st s2")
      from startUnderlying_sum [OF b, of "dstparams s"]
      obtain U where U: "frame s2 s3" "vis s3 = vis s2 @ U"
           "(if mode s2 = ''file''
            then state_saved e (dst s2) (dstparams s) U \<and> length U \<le> 3 \<and> (r3 = None \<longrightarrow> length U = 3) \<and>
                 (\<forall>x. save_raises e x \<and> length U = 3 \<longrightarrow> r3 = Some x)
            else (U = [] \<and> r3 \<noteq> None) \<or>
                 (\<exists>d m. U = [MigrateToURI2 d m (tunneled s2) (abortOnError s2) (cfg_max_bandwidth e)]
                    \<and> r3 = migrateToURI2 e))"
        by blast
      show ?thesis
      proof (cases r3)
        case (Some x)
        then have "r = Some x \<and> s' = s3"
          using assms False a None b
          by (auto simp: migrate_def Let_def s1_def [symmetric] set_migrationParams_def call_def
              split: option.splits prod.splits)
        then show ?thesis using q2 U Some
          by (auto simp: frame_def body_events_def save_raises_def split: if_splits)
      next
        case None
        note r3 = None
        have fin: "finishSuccessfully e s3 = (r, s')"
          using assms False a \<open>r2 = None\<close> b r3
          by (auto simp: migrate_def Let_def s1_def [symmetric] set_migrationParams_def call_def
              split: option.splits prod.splits)
        show ?thesis
        proof (cases "mode s = ''file''")
          case True
          then have m3: "mode s3 = ''file''" using q2 U by (simp add: frame_def)
          from finish_file [OF m3 fin]
          obtain P where P: "frame s3 s'" "vis s' = vis s3 @ P" "params_written e (dstparams s3) P"
             "r = None \<longrightarrow> length P = 4" by auto
          have lenU: "length U = 3" using U r3 True q2 by simp
          have ss: "state_saved e (dst s) (dstparams s) (U @ P)"
            using U P True q2 lenU by (auto intro!: state_saved_append simp: frame_def)
          show ?thesis
            using q2 U P True ss lenU r3
            by (auto simp: frame_def body_events_def save_raises_def)
        next
          case False
          then have m3: "mode s3 \<noteq> ''file''" using q2 U by (simp add: frame_def)
          have q: "quiet s3 s'" using finish_remote [OF m3, of e] fin by simp
          show ?thesis
            using q2 U q False r3 by (auto simp: frame_def quiet_def body_events_def)
        qed
      qed
    qed
  qed
qed

subsection \<open>The run\<close>

lemma cleanup_sum:
  assumes "cleanup s = (r, s')" and "ongoing_value s < ongoing_initial s"
  shows "r = None \<and> dst s' = dst s \<and> dstparams s' = dstparams s \<and> mode s' = mode s \<and>
         method s' = method s \<and> status s' = status s \<and>
         ongoing_value s' = ongoing_value s + 1 \<and> ongoing_initial s' = ongoing_initial s \<and>
         conf s' = dict_discard ''_migrationParams'' (conf s) \<and>
         vis s' = vis s @ (if dict_has ''_migrationParams'' (conf s)
                           then [ConfDelMigrationParams] else []) @ [SlotRelease]"
  using assms
  by (auto simp: cleanup_def release_def dict_discard_def vis_def emit_def split: if_splits)

lemma except_libvirtError_sum:
  assumes "except_libvirtError e f s = (r, s')"
  shows "\<exists>s1. f s = (r, s1) \<and> dst s' = dst s1 \<and> dstparams s' = dstparams s1 \<and> mode s' = mode s1 \<and>
         method s' = method s1 \<and> conf s' = conf s1 \<and> trace s' = trace s1 \<and>
         ongoing_value s' = ongoing_value s1 \<and> ongoing_initial s' = ongoing_initial s1 \<and>
         (r = Some (LibvirtError (Some VIR_ERR_OPERATION_ABORTED)) \<longrightarrow>
            code (status s') = fst (errCode_migCancelErr e) \<and>
            message (status s') = ''Migration canceled'')"
  using assms
  by (cases "f s")
     (auto simp: except_libvirtError_def split: option.splits exn.splits if_splits)

lemma body_events_cong:
  "mode s2 = mode s \<Longrightarrow> dst s2 = dst s \<Longrightarrow> dstparams s2 = dstparams s \<Longrightarrow>
   body_events e s2 r U = body_events e s r U"
  by (simp add: body_events_def)

lemma run_body_sum:
  assumes "run_body e s = Some (r, s')" and "ongoing_value s \<le> ongoing_initial s"
  shows "dst s' = dst s \<and> dstparams s' = dstparams s \<and> mode s' = mode s \<and> method s' = method s \<and>
         ongoing_value s' = ongoing_value s \<and> ongoing_initial s' = ongoing_initial s \<and>
   ((quiet s s' \<and> r \<noteq> None \<and>
     fst (seqs [setupVdsConnection e, setupRemoteMachineParams e, prepareGuest e] s) \<noteq> None) \<or>
    (\<not> dict_has ''_migrationParams'' (conf s') \<and>
     fst (seqs [setupVdsConnection e, setupRemoteMachineParams e, prepareGuest e] s) = None \<and>
     (r = Some (LibvirtError (Some VIR_ERR_OPERATION_ABORTED)) \<longrightarrow>
            code (status s') = fst (errCode_migCancelErr e) \<and>
            message (status s') = ''Migration canceled'') \<and>
     (\<exists>T. vis s' = vis s @ [SlotAcquire] @ T @ [SlotRelease] \<and>
       ((T = (if dict_has ''_migrationParams'' (conf s) then [ConfDelMigrationParams] else []) \<and>
         r = Some (LibvirtError (Some VIR_ERR_OPERATION_ABORTED))) \<or>
        (\<exists>U. T = ConfSetMigrationParams # U @ [ConfDelMigrationParams] \<and>
           body_events e s r U)))))"
proof -
  obtain r1 s1 where p: "seqs [setupVdsConnection e, setupRemoteMachineParams e, prepareGuest e] s = (r1, s1)"
    by (cases "seqs [setupVdsConnection e, setupRemoteMachineParams e, prepareGuest e] s")
  have "quiet s (snd (seqs [setupVdsConnection e, setupRemoteMachineParams e, prepareGuest e] s))"
    by (rule quiet_seqs)
       (auto simp: quiet_setupVdsConnection quiet_setupRemoteMachineParams quiet_prepareGuest)
  then have q1: "quiet s s1" using p by simp
  show ?thesis
  proof (cases r1)
    case (Some x)
    then have "r = Some x \<and> s' = s1" using assms p by (simp add: run_body_def)
    then show ?thesis using q1 p Some by (auto simp: quiet_def frame_def)
  next
    case None
    have pos: "ongoing_value s1 \<noteq> 0"
      using assms p None by (auto simp: run_body_def split: if_splits)
    define s2 where "s2 = emit SlotAcquire (s1\<lparr>ongoing_value := ongoing_value s1 - 1\<rparr>)"
    have q2: "dst s2 = dst s \<and> dstparams s2 = dstparams s \<and> mode s2 = mode s \<and> method s2 = method s \<and>
         ongoing_value s2 + 1 = ongoing_value s \<and> ongoing_initial s2 = ongoing_initial s \<and>
         conf s2 = conf s \<and> vis s2 = vis s @ [SlotAcquire]"
      using q1 pos by (auto simp: s2_def quiet_def frame_def vis_def emit_def)
    obtain r3 s3 where b: "except_libvirtError e (migrate e (time_start e)) s2 = (r3, s3)"
      by (cases "except_libvirtError e (migrate e (time_start e)) s2")
    obtain r4 s4 where c: "cleanup s3 = (r4, s4)" by (cases "cleanup s3")
    from except_libvirtError_sum [OF b]
    obtain s3' where m: "migrate e (time_start e) s2 = (r3, s3')"
      and h: "dst s3 = dst s3'" "dstparams s3 = dstparams s3'" "mode s3 = mode s3'" 
        "method s3 = method s3'" "conf s3 = conf s3'" "trace s3 = trace s3'"
         "ongoing_value s3 = ongoing_value s3'" "ongoing_initial s3 = ongoing_initial s3'"
         "(r3 = Some (LibvirtError (Some VIR_ERR_OPERATION_ABORTED)) \<longrightarrow>
            code (status s3) = fst (errCode_migCancelErr e) \<and>
            message (status s3) = ''Migration canceled'')"
      by blast
    note ms = migrate_sum [OF m]
    have v3: "vis s3 = vis s3'" using h by (simp add: vis_def)
    have lt: "ongoing_value s3 < ongoing_initial s3"
      using ms h q2 assms(2) by auto
    note cs = cleanup_sum [OF c lt]
    have res: "r = r3 \<and> s' = s4"
      using assms p None pos b c cs
      by (auto simp: run_body_def s2_def try_finally_def split: if_splits)
    have nk: "\<not> dict_has ''_migrationParams'' (conf s4)" using cs by (simp add: discard_has)
    have common: "dst s4 = dst s \<and> dstparams s4 = dstparams s \<and> mode s4 = mode s \<and>
        method s4 = method s \<and> ongoing_value s4 = ongoing_value s \<and>
        ongoing_initial s4 = ongoing_initial s"
      using ms h cs q2 by simp
    have ab: "r3 = Some (LibvirtError (Some VIR_ERR_OPERATION_ABORTED)) \<longrightarrow>
            code (status s4) = fst (errCode_migCancelErr e) \<and>
            message (status s4) = ''Migration canceled''"
      using h cs by simp
    have v4: "vis s4 = vis s3' @ (if dict_has ''_migrationParams'' (conf s3')
                           then [ConfDelMigrationParams] else []) @ [SlotRelease]"
      using cs h v3 by simp
    have tr: "\<exists>T. vis s4 = vis s @ [SlotAcquire] @ T @ [SlotRelease] \<and>
       ((T = (if dict_has ''_migrationParams'' (conf s) then [ConfDelMigrationParams] else []) \<and>
         r3 = Some (LibvirtError (Some VIR_ERR_OPERATION_ABORTED))) \<or>
        (\<exists>U. T = ConfSetMigrationParams # U @ [ConfDelMigrationParams] \<and>
           body_events e s r3 U))"
    proof -
      consider (cancel) "vis s3' = vis s2" "conf s3' = conf s2"
                 "r3 = Some (LibvirtError (Some VIR_ERR_OPERATION_ABORTED))"
        | (body) U where "dict_has ''_migrationParams'' (conf s3')"
            "vis s3' = vis s2 @ ConfSetMigrationParams # U"
            "body_events e s2 r3 U"
        using ms by blast
      then show ?thesis
      proof cases
        case cancel
        have "vis s4 = vis s @ [SlotAcquire] @
               (if dict_has ''_migrationParams'' (conf s) then [ConfDelMigrationParams] else [])
               @ [SlotRelease]"
          using v4 cancel q2 by simp
        then show ?thesis using cancel by blast
      next
        case body
        have "vis s4 = vis s @ [SlotAcquire] @ (ConfSetMigrationParams # U @ [ConfDelMigrationParams])
               @ [SlotRelease]"
          using v4 body q2 by simp
        moreover have "body_events e s r3 U"
          using body(3) q2 body_events_cong [of s2 s e r3 U] by simp
        ultimately show ?thesis by blast
      qed
    qed
    have tag: "fst (seqs [setupVdsConnection e, setupRemoteMachineParams e, prepareGuest e] s) = None"
      using p None by simp
    show ?thesis
      using res common nk ab tr tag by blast
  qed
qed

lemma filter_vis:
  assumes "\<And>ev. Q ev \<Longrightarrow> visible ev"
  shows "filter Q (trace s) = filter Q (vis s)"
proof -
  have "filter Q (filter visible xs) = filter Q xs" for xs
    using assms by (induction xs) auto
  then show ?thesis by (simp add: vis_def)
qed

lemma slot_visible: "is_slot ev \<Longrightarrow> visible ev" by (cases ev) simp_all
lemma transfer_visible: "is_transfer ev \<Longrightarrow> visible ev" by (cases ev) simp_all
lemma volume_visible: "is_volume ev \<Longrightarrow> visible ev" by (cases ev) simp_all
lemma migrate_visible: "is_migrateToURI2 ev \<Longrightarrow> visible ev" by (cases ev) simp_all
lemma lifecycle_visible: "is_lifecycle ev \<Longrightarrow> visible ev"
  by (auto simp: is_lifecycle_def slot_visible transfer_visible)

text \<open>run in terms of its body\<close>
lemma run_sum:
  assumes "run e s = Some (r, s')"
  shows "\<exists>r0 s0. run_body e s = Some (r0, s0) \<and> quiet s0 s' \<and>
           (r0 = None \<longrightarrow> s' = s0) \<and> (code (status s0) \<noteq> 0 \<longrightarrow> status s' = status s0)"
proof -
  obtain r0 s0 where b: "run_body e s = Some (r0, s0)"
    using assms by (cases "run_body e s") (auto simp: run_def)
  show ?thesis
  proof (cases r0)
    case None
    then show ?thesis using assms b by (simp add: run_def quiet_refl)
  next
    case (Some x)
    then have "(r, s') = recover e s0" using assms b by (simp add: run_def)
    then have s': "s' = snd (recover e s0)" by (metis snd_conv)
    have "code (status s0) \<noteq> 0 \<longrightarrow> status (snd (recover e s0)) = status s0"
      by (auto simp: recover_def Let_def emit_def split: option.splits)
    then show ?thesis using b s' Some quiet_recover [of s0 e] by simp
  qed
qed

lemma run_returns:
  assumes "0 < ongoing_value s"
  shows "run e s \<noteq> None"
proof -
  obtain r1 s1 where p: "seqs [setupVdsConnection e, setupRemoteMachineParams e, prepareGuest e] s = (r1, s1)"
    by (cases "seqs [setupVdsConnection e, setupRemoteMachineParams e, prepareGuest e] s")
  have "quiet s (snd (seqs [setupVdsConnection e, setupRemoteMachineParams e, prepareGuest e] s))"
    by (rule quiet_seqs)
       (auto simp: quiet_setupVdsConnection quiet_setupRemoteMachineParams quiet_prepareGuest)
  then have "ongoing_value s1 = ongoing_value s" using p by (simp add: quiet_def frame_def)
  then have "run_body e s \<noteq> None"
    using p assms by (cases r1) (auto simp: run_body_def)
  then show ?thesis by (auto simp: run_def split: option.splits)
qed

lemma params_written_shapes:
  assumes "params_written e p P"
  shows "P = [PrepareVolumePath p] \<or>
         (\<exists>g. P = [PrepareVolumePath p, OpenWrite g, TeardownVolumePath p]) \<or>
         (\<exists>g d. no_transient d \<and>
            P = [PrepareVolumePath p, OpenWrite g, PickleDump g d, TeardownVolumePath p])"
  using assms by (auto simp: params_written_def split: sum.splits list.splits)

lemma state_saved_shapes:
  assumes "state_saved e d p U"
  shows "U = [] \<or> U = [PrepareVolumePath d] \<or>
         (\<exists>f P. U = [PrepareVolumePath d, DomSave f, TeardownVolumePath d] @ P \<and>
                (P = [] \<or> params_written e p P))"
proof (cases "U = []")
  case True
  then show ?thesis by simp
next
  case False
  show ?thesis
  proof (cases "prepareVolumePath_dst e")
    case (Inl x)
    then show ?thesis using assms False by (simp add: state_saved_def)
  next
    case (Inr f)
    then have t: "take 3 U = [PrepareVolumePath d, DomSave f, TeardownVolumePath d]"
      and r: "drop 3 U = [] \<or> params_written e p (drop 3 U)"
      using assms False by (simp_all add: state_saved_def)
    have "U = take 3 U @ drop 3 U" by simp
    then have "U = [PrepareVolumePath d, DomSave f, TeardownVolumePath d] @ drop 3 U"
      using t by simp
    then show ?thesis using r by blast
  qed
qed

lemma state_saved_slot: "state_saved e d p U \<Longrightarrow> filter is_slot U = []"
  by (auto dest!: state_saved_shapes params_written_shapes)

lemma migrateToURI2_kind:
  "is_migrateToURI2 t \<Longrightarrow> \<not> is_slot t \<and> is_transfer t \<and> is_lifecycle t \<and> \<not> is_volume t"
  by (cases t) (simp_all add: is_lifecycle_def)

lemma body_events_remote:
  assumes "body_events e s r U" and "mode s \<noteq> ''file''"
  shows "(U = [] \<and> r \<noteq> None) \<or>
         (\<exists>t. U = [t] \<and> is_migrateToURI2 t \<and> (migrateToURI2 e \<noteq> None \<longrightarrow> r = migrateToURI2 e))"
proof -
  have "U = [hd U]" if "length U = 1" using that by (cases U) simp_all
  then show ?thesis using assms by (auto simp: body_events_def)
qed

lemma body_events_file:
  assumes "body_events e s r U" and "mode s = ''file''"
  shows "state_saved e (dst s) (dstparams s) U \<and> (r = None \<longrightarrow> length U = 7) \<and>
         (3 \<le> length U \<and> teardownVolumePath_dst e = None \<and> vmStats_cont e = None \<and>
            dom_save e \<noteq> None \<longrightarrow> r = dom_save e)"
  using assms by (simp add: body_events_def)

lemma body_events_slot:
  assumes "body_events e s r U"
  shows "filter is_slot U = []"
proof (cases "mode s = ''file''")
  case True
  then show ?thesis using body_events_file [OF assms True] state_saved_slot by blast
next
  case False
  then show ?thesis using body_events_remote [OF assms False] by (auto simp: migrateToURI2_kind)
qed


subsection \<open>Evaluating the sample runs\<close>

lemmas driver_defs =
  run_def run_body_def setupVdsConnection_def setupRemoteMachineParams_def
  patchConfigForLegacy_def copy_stat_def prepareGuest_def recover_def set_message_def
  dump_params_def finishSuccessfully_def save_to_volume_def hibernate_def migration_create_def
  uris_def start_downtime_def start_monitor_def hypervisor_migrate_def migrate_or_abort_def
  stop_threads_def migrate_remote_def startUnderlyingMigration_def set_migrationParams_def
  migrate_def except_libvirtError_def release_def cleanup_def call_def try_finally_def
  except_reraise_def emit_def stop_def stop_call_def raiseAbortError_def getStat_def
  MonitorThread_init_def MonitorThread_run_begin_def MonitorThread_iteration_def
  monitor_abort_def monitor_update_def calculateProgress_def
  dict_set_def dict_del_def dict_has_def dict_update_def dict_discard_def err_status_def
  Let_def

lemma wait_for_lock_unfold:
  "wait_for_lock e n s =
     (if n = 0 then (None, s)
      else case session_poll e n of
        Inl x \<Rightarrow> (Some x, s)
      | Inr session \<Rightarrow>
          if session = ''Locked'' \<or> session = ''LoggedOff'' then (None, s)
          else if n - 1 = 0 then (None, emit Sleep s)
          else wait_for_lock e (n - 1) (emit Sleep s))"
  by (cases n) (auto split: sum.splits)

lemma sample_env_sel:
  "errCode_exist sample_env = (4, ''Virtual machine already exists'')"
  "errCode_noConPeer sample_env = (10, ''Could not connect to peer VDS'')"
  "errCode_migrateErr sample_env = (12, ''Fatal error during migration'')"
  "errCode_migCancelErr sample_env = (82, ''Migration not in progress'')"
  "cfg_ssl sample_env = True" "cfg_max_bandwidth sample_env = 32"
  "cfg_monitor_interval sample_env = 10" "cfg_max_time_per_gib sample_env = 64"
  "cfg_progress_timeout sample_env = 150" "time_start sample_env = 1000"
  "time_params sample_env = 1001" "time_monitor sample_env = 1002"
  "py_str sample_env = (\<lambda>v. case v of PStr cs \<Rightarrow> cs | _ \<Rightarrow> ''?'')"
  "hostPort sample_env = Inr ''peer''" "connect sample_env = None"
  "getVmStats sample_env = Inr 1"
  "migrationCreate sample_env = Inr \<lparr>code = 0, message = ''Done'', progress = None\<rparr>"
  "vm_startTime sample_env = 400" "vm_status sample_env = Inr sample_params"
  "vm_getStats sample_env = Inr [(''username'', PStr ''root''), (''session'', PStr ''Locked'')]"
  "XMLDesc sample_env = Inr ''<domain/>''" "isResponsive sample_env = Inr True"
  "desktopLock sample_env = None" "session_poll sample_env = (\<lambda>k. Inr ''Locked'')"
  "vm_pause sample_env = None" "vm_cont sample_env = None" "vm_saveState sample_env = None"
  "vm_setDownStatus sample_env = None" "vmStats_pause sample_env = None"
  "vmStats_cont sample_env = None" "conf_memSize sample_env = Inr 2048"
  "spice_ticket sample_env = None" "downtime_thread sample_env = None"
  "before_vm_hibernate sample_env = None" "before_device_migrate_source sample_env = [None]"
  "before_vm_migrate_source sample_env = None"
  "prepareVolumePath_dst sample_env = Inr ''/rhev/state''"
  "teardownVolumePath_dst sample_env = None"
  "prepareVolumePath_dstparams sample_env = Inr ''/rhev/params''"
  "teardownVolumePath_dstparams sample_env = None" "open_file sample_env = None"
  "pickle_dump sample_env = None" "dom_save sample_env = None"
  "migrateToURI2 sample_env = None" "abortJob sample_env = None"
  "stop_before_acquired_check sample_env = False" "stop_before_migrate_check sample_env = False"
  "during_migration sample_env = []"
  by (simp_all add: sample_env_def)

lemmas sample_defs = sample_env_sel sample_remote_def sample_file_def sample_params_def
  sample_tick_def SourceThread_init_def wait_for_lock_unfold

lemma sample_wf: "ongoing_value sample_remote \<le> ongoing_initial sample_remote"
  by (simp add: sample_defs)

lemma sample_remote_run:
  "\<exists>s'. run sample_env sample_remote = Some (None, s') \<and>
        filter is_slot (trace s') = [SlotAcquire, SlotRelease] \<and>
        filter is_lifecycle (trace s') =
          [SlotAcquire, ConfSetMigrationParams,
           MigrateToURI2 ''qemu+tls://peer/system'' ''tcp://peer'' False False 32,
           ConfDelMigrationParams, SlotRelease]"
  by (simp add: driver_defs sample_defs is_lifecycle_def)


subsection \<open>When the hypervisor is called\<close>

lemma device_hooks_ok:
  "\<forall>r\<in>set rs. r = None \<Longrightarrow>
   fst (device_hooks rs s) = None \<and>
   migrationCanceledEvt (snd (device_hooks rs s)) = migrationCanceledEvt s"
  by (induction rs arbitrary: s) (auto simp: emit_def)

lemma prefix_ok:
  assumes "\<not> remote_blocked e"
    and "seqs [device_hooks (before_device_migrate_source e),
                 call HookBeforeVmMigrateSource (before_vm_migrate_source e),
                 migration_create e] s = (r, s1)"
  shows "r = None \<and> remoteHost s1 = remoteHost s \<and>
         migrationCanceledEvt s1 = migrationCanceledEvt s"
proof -
  obtain r0 s0 where d: "device_hooks (before_device_migrate_source e) s = (r0, s0)"
    by (cases "device_hooks (before_device_migrate_source e) s")
  have a: "\<forall>r\<in>set (before_device_migrate_source e). r = None"
    using assms(1) by (auto simp: remote_blocked_def)
  have "r0 = None \<and> migrationCanceledEvt s0 = migrationCanceledEvt s \<and> remoteHost s0 = remoteHost s"
    using device_hooks_ok [OF a, of s] device_hooks_sum [of s "before_device_migrate_source e"] d
    by simp
  then show ?thesis
    using assms d
    by (auto simp: remote_blocked_def call_def migration_create_def Let_def emit_def
        split: sum.splits if_splits)
qed

lemma threads_ok:
  assumes "\<not> remote_blocked e"
    and "seqs [start_downtime e, start_monitor e st] s = (r, s')"
  shows "r = None \<and> migrationCanceledEvt s' = migrationCanceledEvt s"
  using assms
  by (auto simp: remote_blocked_def start_downtime_def start_monitor_def emit_def
      split: option.splits if_splits)

lemma migrate_or_abort_ok:
  assumes "\<not> remote_blocked e" and "\<not> stop_before_migrate_check e"
    and "\<not> migrationCanceledEvt s" and "migrate_or_abort e d m s = (r, s')"
  shows "vis s' = vis s @ [MigrateToURI2 d m (tunneled s) (abortOnError s) (cfg_max_bandwidth e)]"
proof -
  have "spice_ticket e = None" using assms(1) by (simp add: remote_blocked_def)
  then have "vis s' \<noteq> vis s \<or> r = None"
    using assms conc_fold [of "emit (MigrateToURI2 d m (tunneled s) (abortOnError s)
        (cfg_max_bandwidth e)) (emit Checkpoint (s\<lparr>preparingMigrationEvt := False\<rparr>))" e "during_migration e"]
    by (auto simp: migrate_or_abort_def Let_def hypervisor_migrate_def quiet_def vis_def emit_def)
  then show ?thesis using migrate_or_abort_sum [OF assms(4)] by auto
qed

lemma uris_cong:
  "remoteHost s1 = remoteHost s \<Longrightarrow> conf s1 = conf s \<Longrightarrow> uris e s1 = uris e s"
  by (simp add: uris_def split: option.splits)

lemma migrate_remote_ok:
  assumes "\<not> remote_blocked e" and "\<not> stop_before_migrate_check e"
    and "\<not> migrationCanceledEvt s" and "uris e s = Inr dm"
    and "migrate_remote e st s = (r, s')"
  shows "\<exists>t. is_migrateToURI2 t \<and> vis s' = vis s @ [t]"
proof -
  obtain r1 s1 where p: "seqs [device_hooks (before_device_migrate_source e),
                 call HookBeforeVmMigrateSource (before_vm_migrate_source e),
                 migration_create e] s = (r1, s1)"
    by (cases "seqs [device_hooks (before_device_migrate_source e),
                 call HookBeforeVmMigrateSource (before_vm_migrate_source e),
                 migration_create e] s")
  note q1 = remote_prefix_sum [OF p]
  note o1 = prefix_ok [OF assms(1) p]
  have u: "uris e s1 = uris e s"
    using q1 o1 by (intro uris_cong) (simp_all add: quiet_def frame_def)
  obtain d m where dm: "dm = (d, m)" by (cases dm)
  obtain r2 s2 where t: "seqs [start_downtime e, start_monitor e st] s1 = (r2, s2)"
    by (cases "seqs [start_downtime e, start_monitor e st] s1")
  note q2 = start_threads_sum [OF t]
  note o2 = threads_ok [OF assms(1) t]
  obtain r3 s3 where m: "migrate_or_abort e d m s2 = (r3, s3)"
    by (cases "migrate_or_abort e d m s2")
  obtain r4 s4 where f: "stop_threads e s3 = (r4, s4)"
    by (cases "stop_threads e s3")
  have c2: "\<not> migrationCanceledEvt s2" using o1 o2 assms(3) by simp
  note v3 = migrate_or_abort_ok [OF assms(1) assms(2) c2 m]
  note q4 = stop_threads_sum [OF f]
  have "s' = s4"
    using assms(5) p o1 u assms(4) dm t o2 m f
    by (auto simp: migrate_remote_def try_finally_def split: option.splits prod.splits)
  then have "vis s' = vis s @ [MigrateToURI2 d m (tunneled s2) (abortOnError s2) (cfg_max_bandwidth e)]"
    using v3 q1 q2 q4 by (simp add: quiet_def)
  then show ?thesis by auto
qed

lemma migrate_ok:
  assumes "\<not> remote_blocked e" and "\<not> cancel_seen e s" and "mode s \<noteq> ''file''"
    and "remoteHost s \<noteq> None" and "migrate e st s = (r, s')"
  shows "\<exists>t. is_migrateToURI2 t \<and> vis s' = vis s @ [ConfSetMigrationParams, t]"
proof -
  define s2 where "s2 = emit SaveState (emit ConfSetMigrationParams
        (s\<lparr>conf := dict_set ''_migrationParams''
                      (PDict [(''dst'', PStr (dst s)), (''mode'', PStr (mode s)),
                              (''method'', PStr (method s)),
                              (''dstparams'', PStr (dstparams s)),
                              (''dstqemu'', PStr (dstqemu s))])
                      (conf s)\<rparr>))"
  have flags: "\<not> migrationCanceledEvt s" "\<not> stop_before_acquired_check e"
    "\<not> stop_before_migrate_check e" "vm_saveState e = None"
    using assms(1,2) by (simp_all add: cancel_seen_def remote_blocked_def)
  obtain h where h: "remoteHost s = Some h" using assms(4) by auto
  have s2: "mode s2 = mode s" "\<not> migrationCanceledEvt s2"
    "vis s2 = vis s @ [ConfSetMigrationParams]"
    using flags by (simp_all add: s2_def emit_def vis_def)
  have u: "\<exists>dm. uris e s2 = Inr dm"
    using h by (simp add: uris_def s2_def emit_def dict_set_def update_conv' Let_def)
  obtain r3 s3 where m: "migrate_remote e st s2 = (r3, s3)"
    by (cases "migrate_remote e st s2")
  from u obtain dm where dm: "uris e s2 = Inr dm" by blast
  from migrate_remote_ok [OF assms(1) flags(3) s2(2) dm m]
  obtain t where t: "is_migrateToURI2 t" "vis s3 = vis s2 @ [t]" by blast
  have fr: "frame s2 s3" using migrate_remote_sum [OF m] by simp
  have "vis s' = vis s3"
  proof (cases r3)
    case (Some x)
    then have "s' = s3"
      using assms(3,5) flags m s2(1)
      by (simp add: migrate_def Let_def set_migrationParams_def call_def
          startUnderlyingMigration_def s2_def [symmetric])
    then show ?thesis by simp
  next
    case None
    then have "s' = snd (finishSuccessfully e s3)"
      using assms(3,5) flags m s2(1)
      by (simp add: migrate_def Let_def set_migrationParams_def call_def
          startUnderlyingMigration_def s2_def [symmetric] split: prod.splits option.splits)
    moreover have "mode s3 \<noteq> ''file''" using fr s2(1) assms(3) by (simp add: frame_def)
    ultimately show ?thesis using finish_remote [of s3 e] by (simp add: quiet_def)
  qed
  then show ?thesis using t s2(3) by auto
qed

lemma params_carried:
  "remoteHost (snd (setupRemoteMachineParams e s)) = remoteHost s \<and>
   migrationCanceledEvt (snd (setupRemoteMachineParams e s)) = migrationCanceledEvt s \<and>
   mode (snd (setupRemoteMachineParams e s)) = mode s"
  by (auto simp: setupRemoteMachineParams_def Let_def
      split: sum.splits option.splits prod.splits)

lemma pre_slot_remote:
  assumes "mode s \<noteq> ''file''"
    and "seqs [setupVdsConnection e, setupRemoteMachineParams e, prepareGuest e] s = (None, s1)"
  shows "remoteHost s1 \<noteq> None \<and> migrationCanceledEvt s1 = migrationCanceledEvt s"
proof -
  obtain r0 s0 where a: "setupVdsConnection e s = (r0, s0)" by (cases "setupVdsConnection e s")
  have r0: "r0 = None" using assms(2) a by (auto split: option.splits)
  have p0: "remoteHost s0 \<noteq> None \<and> migrationCanceledEvt s0 = migrationCanceledEvt s \<and>
            mode s0 = mode s"
    using a r0 assms(1)
    by (auto simp: setupVdsConnection_def Let_def emit_def split: sum.splits option.splits if_splits)
  obtain rb sb where b: "setupRemoteMachineParams e s0 = (rb, sb)"
    by (cases "setupRemoteMachineParams e s0")
  have rb: "rb = None" using assms(2) a r0 b by (auto split: option.splits)
  have sb: "remoteHost sb = remoteHost s0 \<and> migrationCanceledEvt sb = migrationCanceledEvt s0 \<and>
            mode sb = mode s0"
    using params_carried [of e s0] b by simp
  have "s1 = snd (prepareGuest e sb)" using assms(2) a r0 b rb by (auto split: option.splits prod.splits)
  then show ?thesis using p0 sb assms(1) by (simp add: prepareGuest_def)
qed

lemma run_body_ok:
  assumes "mode s \<noteq> ''file''"
    and "seqs [setupVdsConnection e, setupRemoteMachineParams e, prepareGuest e] s = (None, s1)"
    and "0 < ongoing_value s" and "ongoing_value s \<le> ongoing_initial s"
    and "\<not> remote_blocked e" and "\<not> cancel_seen e s"
    and "run_body e s = Some (r, s')"
  shows "\<exists>t. is_migrateToURI2 t \<and> filter is_transfer (vis s') = filter is_transfer (vis s) @ [t]"
proof -
  have "quiet s (snd (seqs [setupVdsConnection e, setupRemoteMachineParams e, prepareGuest e] s))"
    by (rule quiet_seqs)
       (auto simp: quiet_setupVdsConnection quiet_setupRemoteMachineParams quiet_prepareGuest)
  then have q1: "quiet s s1" using assms(2) by simp
  note p1 = pre_slot_remote [OF assms(1,2)]
  define s2 where "s2 = emit SlotAcquire (s1\<lparr>ongoing_value := ongoing_value s1 - 1\<rparr>)"
  have q2: "mode s2 = mode s" "remoteHost s2 \<noteq> None" "\<not> cancel_seen e s2"
     "ongoing_value s2 + 1 = ongoing_value s" "ongoing_initial s2 = ongoing_initial s"
     "vis s2 = vis s @ [SlotAcquire]"
    using q1 p1 assms(3,6)
    by (auto simp: s2_def quiet_def frame_def vis_def emit_def cancel_seen_def)
  obtain r3 s3 where b: "except_libvirtError e (migrate e (time_start e)) s2 = (r3, s3)"
    by (cases "except_libvirtError e (migrate e (time_start e)) s2")
  obtain r4 s4 where c: "cleanup s3 = (r4, s4)" by (cases "cleanup s3")
  from except_libvirtError_sum [OF b]
  obtain s3' where m: "migrate e (time_start e) s2 = (r3, s3')"
    and h: "trace s3 = trace s3'" "conf s3 = conf s3'"
         "ongoing_value s3 = ongoing_value s3'" "ongoing_initial s3 = ongoing_initial s3'"
    by blast
  have md: "mode s2 \<noteq> ''file''" using q2 assms(1) by simp
  from migrate_ok [OF assms(5) q2(3) md q2(2) m]
  obtain t where t: "is_migrateToURI2 t" "vis s3' = vis s2 @ [ConfSetMigrationParams, t]" by blast
  note ms = migrate_sum [OF m]
  have lt: "ongoing_value s3 < ongoing_initial s3" using ms h q2 assms(4) by auto
  note cs = cleanup_sum [OF c lt]
  have "s' = s4"
    using assms(2,3,7) q1 b c cs
    by (auto simp: run_body_def s2_def try_finally_def quiet_def frame_def split: if_splits)
  moreover have "vis s3 = vis s3'" using h by (simp add: vis_def)
  ultimately have "vis s' = vis s @ [SlotAcquire, ConfSetMigrationParams, t] @
      (if dict_has ''_migrationParams'' (conf s3) then [ConfDelMigrationParams] else []) @ [SlotRelease]"
    using cs t q2 by simp
  then show ?thesis using t migrateToURI2_kind [OF t(1)] by auto
qed

subsection \<open>Shapes of the visible trace\<close>

lemma state_saved_lifecycle:
  "state_saved e d p U \<Longrightarrow>
   filter is_lifecycle U = [] \<or> (\<exists>f. filter is_lifecycle U = [DomSave f])"
  by (auto dest!: state_saved_shapes params_written_shapes simp: is_lifecycle_def)

lemma state_saved_volume: "state_saved e d p U \<Longrightarrow> filter is_volume U = U"
  by (auto dest!: state_saved_shapes params_written_shapes)

lemma state_saved_full:
  assumes "state_saved e d p U" "length U = 7"
  shows "\<exists>f g dct. no_transient dct \<and>
           U = [PrepareVolumePath d, DomSave f, TeardownVolumePath d,
                PrepareVolumePath p, OpenWrite g, PickleDump g dct, TeardownVolumePath p]"
  using assms by (auto dest!: state_saved_shapes params_written_shapes)

lemma pickled_append: "pickled (xs @ ys) = pickled xs @ pickled ys"
  by (induction xs rule: pickled.induct) auto

lemma pickled_visible: "pickled (filter visible xs) = pickled xs"
  by (induction xs rule: pickled.induct) auto

lemma state_saved_pickled:
  "state_saved e d p U \<Longrightarrow> list_all no_transient (pickled U)"
  by (auto dest!: state_saved_shapes params_written_shapes)

lemma body_events_lifecycle:
  assumes "body_events e s r U"
  shows "filter is_lifecycle U = [] \<or> (\<exists>t. is_transfer t \<and> filter is_lifecycle U = [t])"
proof (cases "mode s = ''file''")
  case True
  then have "state_saved e (dst s) (dstparams s) U" using body_events_file [OF assms] by simp
  from state_saved_lifecycle [OF this] show ?thesis by auto
next
  case False
  then show ?thesis using body_events_remote [OF assms False] by (auto simp: migrateToURI2_kind)
qed


lemma succeeds_run:
  "succeeds e s \<Longrightarrow> run e s = Some (r, s') \<Longrightarrow> run_body e s = Some (None, s') \<and> r = None"
  by (auto simp: succeeds_def run_def split: option.splits prod.splits)

lemma file_run_sum:
  assumes "run e s = Some (r, s')" and "ongoing_value s \<le> ongoing_initial s"
    and "mode s = ''file''"
  shows "\<exists>V. filter is_volume (vis s') = filter is_volume (vis s) @ V \<and>
             pickled (vis s') = pickled (vis s) @ pickled V \<and>
             state_saved e (dst s) (dstparams s) V \<and> (succeeds e s \<longrightarrow> length V = 7)"
proof -
  from run_sum [OF assms(1)] obtain r0 s0 where
    b: "run_body e s = Some (r0, s0)" and q: "quiet s0 s'" by blast
  note m = run_body_sum [OF b assms(2)]
  have v: "vis s' = vis s0" using q by (simp add: quiet_def)
  have su: "succeeds e s \<longrightarrow> r0 = None" using b by (auto simp: succeeds_def split: option.splits)
  consider (early) "vis s0 = vis s" "r0 \<noteq> None"
    | (cancel) T where "vis s0 = vis s @ [SlotAcquire] @ T @ [SlotRelease]"
         "T = [] \<or> T = [ConfDelMigrationParams]" "r0 \<noteq> None"
    | (body) U where
        "vis s0 = vis s @ [SlotAcquire] @ (ConfSetMigrationParams # U @ [ConfDelMigrationParams])
                   @ [SlotRelease]"
        "body_events e s r0 U"
    using m by (auto simp: quiet_def)
  then show ?thesis
  proof cases
    case early
    then show ?thesis using v su by (auto simp: state_saved_def)
  next
    case cancel
    then show ?thesis using v su by (auto simp: state_saved_def pickled_append)
  next
    case body
    note f = body_events_file [OF body(2) assms(3)]
    then have "state_saved e (dst s) (dstparams s) U" by simp
    from state_saved_volume [OF this] show ?thesis using body(1) f v su
      by (auto simp: pickled_append)
  qed
qed


lemma sample_file_wf: "ongoing_value sample_file \<le> ongoing_initial sample_file"
  by (simp add: sample_defs)

lemma sample_file_mode: "mode sample_file = ''file''"
  by (simp add: sample_defs)

lemma sample_file_run:
  "\<exists>s'. run sample_env sample_file = Some (None, s') \<and>
        filter is_volume (trace s') =
          [PrepareVolumePath ''vol-state'', DomSave ''/rhev/state'',
           TeardownVolumePath ''vol-state'', PrepareVolumePath ''vol-params'',
           OpenWrite ''/rhev/params'',
           PickleDump ''/rhev/params''
             [(''vmId'', PStr ''vm1''),
              (''drives'', PList [PDict [(''device'', PStr ''disk''), (''path'', PStr ''/img'')]]),
              (''cdrom'', PStr ''/iso''), (''afterMigrationStatus'', PStr []),
              (''elapsedTimeOffset'', PFloat 601), (''username'', PStr ''root''),
              (''_srcDomXML'', PStr ''<domain/>'')],
           TeardownVolumePath ''vol-params'']"
  by (simp add: driver_defs sample_defs)

lemma sample_file_succeeds: "succeeds sample_env sample_file"
  by (simp add: succeeds_def driver_defs sample_defs)




lemmas variant_defs = sample_env_exist_def sample_env_nojob_def sample_env_cancel_def
  VIR_ERR_OPERATION_ABORTED_def

lemma sample_exist_run:
  "\<exists>s'. run sample_env_exist sample_remote = Some (None, s') \<and>
        filter is_lifecycle (trace s') =
          [SlotAcquire, ConfSetMigrationParams,
           MigrateToURI2 ''qemu+tls://peer/system'' ''tcp://peer'' False False 32,
           ConfDelMigrationParams, SlotRelease] \<and>
        status s' = \<lparr>code = 4, message = ''Migration done'', progress = Some 100\<rparr>"
  by (simp add: driver_defs sample_defs variant_defs is_lifecycle_def)




subsection \<open>The monitor and the ramp\<close>

lemma calc_le_100: "calculateProgress r t \<le> 100"
  by (simp add: calculateProgress_def Let_def)

lemma calc_100_iff: "calculateProgress r t = 100 \<longleftrightarrow> r = 0"
  by (simp add: calculateProgress_def Let_def)

lemma calc_mono:
  assumes "0 < t" "0 \<le> r2" "r2 \<le> r1"
  shows "calculateProgress r1 t \<le> calculateProgress r2 t"
proof -
  have "100 * r2 div t \<le> 100 * r1 div t" using assms by (intro zdiv_mono1) auto
  moreover have "0 \<le> 100 * r2 div t" using assms by (simp add: pos_imp_zdiv_nonneg_iff)
  ultimately show ?thesis using assms by (auto simp: calculateProgress_def Let_def)
qed

lemma calc_nonneg:
  assumes "0 < t" "0 \<le> r" "r \<le> t"
  shows "0 \<le> calculateProgress r t"
proof -
  have "100 * r div t \<le> 100 * t div t" using assms by (intro zdiv_mono1) auto
  then have "100 * r div t \<le> 100" using assms by simp
  then show ?thesis by (auto simp: calculateProgress_def Let_def)
qed

lemma iteration_progress:
  "m_progress (snd (MonitorThread_iteration t m)) = m_progress m \<or>
   (\<exists>j. tick_jobInfo t = Inr j \<and> jobType j \<noteq> 0 \<and>
        m_progress (snd (MonitorThread_iteration t m)) =
          calculateProgress (dataRemaining j) (dataTotal j))"
  by (auto simp: MonitorThread_iteration_def monitor_abort_def monitor_update_def Let_def
      split: option.splits sum.splits)

lemma progress_seq_sorted:
  assumes "0 < T" "r \<le> T" "converging T r ts" "m_progress m \<le> calculateProgress r T"
  shows "sorted (m_progress m # progress_seq ts m)"
  using assms
proof (induction ts arbitrary: r m)
  case Nil
  show ?case by simp
next
  case (Cons t ts)
  let ?m1 = "snd (MonitorThread_iteration t m)"
  show ?case
  proof (cases "tick_jobInfo t")
    case (Inl x)
    then have same: "m_progress ?m1 = m_progress m"
      using iteration_progress [of t m] by auto
    have "sorted (m_progress ?m1 # progress_seq ts ?m1)"
      using Cons.IH [of r ?m1] Cons.prems Inl same by simp
    then show ?thesis using same by (simp add: Let_def)
  next
    case (Inr j)
    then have j: "dataTotal j = T" "0 \<le> dataRemaining j" "dataRemaining j \<le> r"
      "converging T (dataRemaining j) ts"
      using Cons.prems by simp_all
    have le: "calculateProgress r T \<le> calculateProgress (dataRemaining j) T"
      using calc_mono [of T "dataRemaining j" r] Cons.prems j by simp
    have p1: "m_progress m \<le> m_progress ?m1 \<and> m_progress ?m1 \<le> calculateProgress (dataRemaining j) T"
      using iteration_progress [of t m] Inr j le Cons.prems by auto
    have "sorted (m_progress ?m1 # progress_seq ts ?m1)"
      using Cons.IH [of "dataRemaining j" ?m1] Cons.prems j p1 by simp
    then show ?thesis using p1 by (auto simp: Let_def)
  qed
qed

lemma iteration_aborts_iff:
  assumes "m_loop m = Some l" "\<not> m_stop m" "tick_jobInfo t = Inr j"
  shows "AbortJob \<in> set (fst (MonitorThread_iteration t m)) \<longleftrightarrow>
     (0 < migrationMaxTime l \<and> of_int (migrationMaxTime l) < tick_now t - m_startTime m) \<or>
     (\<exists>lm. lowmark l = Some lm \<and> lm \<le> dataRemaining j \<and>
           tick_now t - lastProgressTime l > of_int (progress_timeout l))"
  using assms
  by (auto simp: MonitorThread_iteration_def monitor_abort_def monitor_update_def Let_def
      split: option.splits)

lemma iteration_lastProgressTime:
  assumes "m_loop m = Some l" "m_loop (snd (MonitorThread_iteration t m)) = Some l'"
    "tick_jobInfo t = Inr j"
  shows "lastProgressTime l' =
           (if (case lowmark l of None \<Rightarrow> True | Some lm \<Rightarrow> dataRemaining j < lm)
            then tick_now t else lastProgressTime l) \<and>
         lowmark l' =
           (if (case lowmark l of None \<Rightarrow> True | Some lm \<Rightarrow> dataRemaining j < lm)
            then Some (dataRemaining j) else lowmark l)"
  using assms
  by (auto simp: MonitorThread_iteration_def monitor_abort_def monitor_update_def Let_def
      split: option.splits if_splits)

lemma downtime_calls_append: "downtime_calls (xs @ ys) = downtime_calls xs @ downtime_calls ys"
  by (induction xs rule: downtime_calls.induct) auto

lemma downtime_loop_calls:
  assumes "\<forall>i\<in>set is. setMax i = None"
  shows "fst (downtime_loop stopped setMax t is) = None \<and>
         downtime_calls (snd (downtime_loop stopped setMax t is)) =
           map (\<lambda>i. d_downtime t * (int i + 1) div DOWNTIME_STEPS t)
               (takeWhile (\<lambda>i. \<not> stopped i) is)"
  using assms
proof (induction "is")
  case Nil
  show ?case by simp
next
  case (Cons i "is")
  then show ?case
    by (cases "downtime_loop stopped setMax t is") (simp add: Let_def)
qed

lemma ramp_mono:
  fixes D N :: int
  assumes "0 < N" "0 \<le> D" "i \<le> j"
  shows "D * (int i + 1) div N \<le> D * (int j + 1) div N"
proof -
  have "D * (int i + 1) \<le> D * (int j + 1)" using assms by (simp add: mult_left_mono)
  then show ?thesis using assms(1) by (simp add: zdiv_mono1)
qed

lemma ramp_strict:
  fixes D N :: int
  assumes "0 < N" "N \<le> D" "i < j"
  shows "D * (int i + 1) div N < D * (int j + 1) div N"
proof -
  have "D * (int i + 1) + N \<le> D * (int i + 1) + D" using assms by simp
  also have "\<dots> = D * (int (Suc i) + 1)" by (simp add: algebra_simps)
  also have "\<dots> \<le> D * (int j + 1)" using assms by (intro mult_left_mono) auto
  finally have "D * (int i + 1) + N \<le> D * (int j + 1)" .
  from zdiv_mono1 [OF this assms(1)]
  have "(D * (int i + 1) + N) div N \<le> D * (int j + 1) div N" .
  moreover have "(D * (int i + 1) + N) div N = D * (int i + 1) div N + 1"
    using assms(1) by simp
  ultimately show ?thesis by simp
qed

lemma sorted_wrt_map_upt:
  assumes "\<And>i j. i < j \<Longrightarrow> j < n \<Longrightarrow> P (f i) (f j)"
  shows "sorted_wrt P (map f [0..<n])"
  using assms by (simp add: sorted_wrt_map sorted_wrt_iff_nth_less)


lemma case_run_ex:
  "(case x of None \<Rightarrow> False | Some (r, s') \<Rightarrow> P r s') \<Longrightarrow> \<exists>r s'. x = Some (r, s') \<and> P r s'"
  by (auto split: option.splits)

lemma finish_progress: "progress (status (snd (finishSuccessfully e s))) = Some 100"
  by (auto simp: finishSuccessfully_def Let_def call_def set_message_def emit_def
      try_finally_def dump_params_def split: option.splits sum.splits prod.splits)


lemma sample_stall_case:
  "(case run sample_env_stall sample_remote of
      None \<Rightarrow> False
    | Some (r, s') \<Rightarrow> reported_progress (trace s') = [90, 50, 100] \<and>
        \<not> sorted (reported_progress (trace s')) \<and> code (status s') = 12 \<and>
        message (status s') = ''Fatal error during migration'')"
  by code_simp

lemma sample_stall_fails: "\<not> succeeds sample_env_stall sample_remote"
  by code_simp


subsection \<open>The checkpoint and the stops of other threads\<close>





























































lemma iteration_sets_progress:
  assumes "m_loop m = Some l" "\<not> m_stop m" "tick_jobInfo t = Inr j" "jobType j \<noteq> 0"
    "AbortJob \<notin> set (fst (MonitorThread_iteration t m))"
  shows "m_progress (snd (MonitorThread_iteration t m)) =
           calculateProgress (dataRemaining j) (dataTotal j)"
  using assms
  by (auto simp: MonitorThread_iteration_def monitor_abort_def monitor_update_def Let_def
      split: option.splits if_splits)

lemma iteration_keeps_progress:
  assumes "m_loop m = None \<or> m_stop m \<or> (\<exists>x. tick_jobInfo t = Inl x) \<or>
           (\<exists>j. tick_jobInfo t = Inr j \<and> jobType j = 0) \<or>
           AbortJob \<in> set (fst (MonitorThread_iteration t m))"
  shows "m_progress (snd (MonitorThread_iteration t m)) = m_progress m"
  using assms
  by (auto simp: MonitorThread_iteration_def monitor_abort_def monitor_update_def Let_def
      split: option.splits sum.splits if_splits)

lemma progress_seq_le_100:
  "m_progress m \<le> 100 \<Longrightarrow> list_all (\<lambda>p. p \<le> 100) (progress_seq ts m)"
proof (induction ts arbitrary: m)
  case Nil
  show ?case by simp
next
  case (Cons t ts)
  have "m_progress (snd (MonitorThread_iteration t m)) \<le> 100"
    using iteration_progress [of t m] Cons.prems calc_le_100 by auto
  then show ?case using Cons.IH by (simp add: Let_def)
qed

lemma state_saved_files:
  assumes "state_saved e d p U" "length U = 7"
  shows "\<exists>f g dct. prepareVolumePath_dst e = Inr f \<and> prepareVolumePath_dstparams e = Inr g \<and>
           U = [PrepareVolumePath d, DomSave f, TeardownVolumePath d,
                PrepareVolumePath p, OpenWrite g, PickleDump g dct, TeardownVolumePath p]"
proof -
  from state_saved_full [OF assms] obtain f g dct where
    U: "U = [PrepareVolumePath d, DomSave f, TeardownVolumePath d,
             PrepareVolumePath p, OpenWrite g, PickleDump g dct, TeardownVolumePath p]"
    by blast
  have "prepareVolumePath_dst e = Inr f \<and> prepareVolumePath_dstparams e = Inr g"
    using assms(1) unfolding U
    by (auto simp: state_saved_def params_written_def split: sum.splits list.splits)
  then show ?thesis using U by blast
qed

lemma sample_same_case:
  "(case run sample_env_same sample_file_same of
      None \<Rightarrow> False
    | Some (r, s') \<Rightarrow>
        r = None \<and>
        filter is_volume (trace s') =
          [PrepareVolumePath ''vol'', DomSave ''/rhev/state'', TeardownVolumePath ''vol'',
           PrepareVolumePath ''vol'', OpenWrite ''/rhev/state'',
           PickleDump ''/rhev/state'' (hd (pickled (trace s'))), TeardownVolumePath ''vol''] \<and>
        code (status s') = 0 \<and> message (status s') = ''SaveState done'')"
  by code_simp

lemma sample_same_succeeds:
  "dst sample_file_same = dstparams sample_file_same \<and>
   prepareVolumePath_dst sample_env_same = prepareVolumePath_dstparams sample_env_same \<and>
   succeeds sample_env_same sample_file_same"
  by code_simp


subsection \<open>The progress function\<close>

text \<open>
  C9: for all non-negative integers r and t, calc(0, t) = 100; for 0 < r and 0 < t,
  calc(r, t) is 100 - 100 r / t in integer arithmetic, replaced by 99 when that value
  would reach 100; and calc(r, 0) = 0 for 0 < r.
\<close>

theorem calculateProgress_spec:
  "0 \<le> r \<and> 0 \<le> t \<longrightarrow>
     calculateProgress 0 t = 100 \<and>
     (0 < r \<and> 0 < t \<longrightarrow>
        calculateProgress r t =
          (if 100 - 100 * r div t \<ge> 100 then 99 else 100 - 100 * r div t)) \<and>
     (0 < r \<longrightarrow> calculateProgress r 0 = 0)"
  by (simp add: calculateProgress_def Let_def)

theorem calculateProgress_spec_witness:
  "(0::int) \<le> 1 \<and> (0::int) \<le> 300 \<and>
   calculateProgress 0 300 = 100 \<and>
   calculateProgress 1 300 = 99 \<and>
   calculateProgress 1 0 = 0"
  using calculateProgress_spec [of 1 300] by simp

subsection \<open>The global slot\<close>



subsection \<open>The downtime ramp\<close>

text \<open>
  C7, as amended: in a run of the ramp with target downtime D and N steps in which no
  \<open>migrateSetMaxDowntime\<close> call fails, the calls are those for the iterations before the
  first one that sees the stop event, with the values D (i + 1) / N in integer
  arithmetic; an uncancelled run makes exactly N calls, with the values D k / N for
  k = 1..N, which never decrease when D is not negative and strictly increase when
  N \<le> D. After a cancellation no further call is made.
\<close>

theorem downtime_ramp:
  assumes "\<forall>i < nat (DOWNTIME_STEPS t). setMax i = None"
  shows "fst (DowntimeThread_run stopped setMax t) = None \<and>
     downtime_calls (snd (DowntimeThread_run stopped setMax t)) =
       map (\<lambda>i. d_downtime t * (int i + 1) div DOWNTIME_STEPS t)
           (takeWhile (\<lambda>i. \<not> stopped i) [0 ..< nat (DOWNTIME_STEPS t)]) \<and>
     ((\<forall>i < nat (DOWNTIME_STEPS t). \<not> stopped i) \<longrightarrow>
        downtime_calls (snd (DowntimeThread_run stopped setMax t)) =
          map (\<lambda>k. d_downtime t * int k div DOWNTIME_STEPS t) [1 ..< Suc (nat (DOWNTIME_STEPS t))] \<and>
        length (downtime_calls (snd (DowntimeThread_run stopped setMax t))) = nat (DOWNTIME_STEPS t) \<and>
        (0 \<le> d_downtime t \<longrightarrow> sorted (downtime_calls (snd (DowntimeThread_run stopped setMax t)))) \<and>
        (DOWNTIME_STEPS t \<le> d_downtime t \<longrightarrow>
           sorted_wrt (<) (downtime_calls (snd (DowntimeThread_run stopped setMax t)))))"
proof -
  let ?N = "DOWNTIME_STEPS t" and ?D = "d_downtime t"
  let ?f = "\<lambda>i. ?D * (int i + 1) div ?N"
  let ?calls = "downtime_calls (snd (DowntimeThread_run stopped setMax t))"
  have a: "\<forall>i\<in>set [0 ..< nat ?N]. setMax i = None" using assms by simp
  from downtime_loop_calls [OF a, of stopped t]
  have b: "fst (DowntimeThread_run stopped setMax t) = None"
    and c: "?calls = map ?f (takeWhile (\<lambda>i. \<not> stopped i) [0 ..< nat ?N])"
    by (simp_all add: DowntimeThread_run_def)
  have d: "?calls = map ?f [0 ..< nat ?N]" if "\<forall>i < nat ?N. \<not> stopped i"
  proof -
    have tw: "takeWhile (\<lambda>i. \<not> stopped i) [0 ..< nat ?N] = [0 ..< nat ?N]"
      using that by simp
    show ?thesis by (subst c) (simp only: tw)
  qed
  have e: "map ?f [0 ..< nat ?N] = map (\<lambda>k. ?D * int k div ?N) [1 ..< Suc (nat ?N)]"
  proof -
    have "[1 ..< Suc (nat ?N)] = map Suc [0 ..< nat ?N]"
      using map_Suc_upt [of 0 "nat ?N"] by simp
    then show ?thesis by (simp add: algebra_simps)
  qed
  have f: "sorted (map ?f [0 ..< nat ?N])" if "0 \<le> ?D"
  proof -
    have "sorted_wrt (\<le>) (map ?f [0 ..< nat ?N])"
    proof (rule sorted_wrt_map_upt)
      fix i j :: nat assume "i < j" "j < nat ?N"
      then show "?f i \<le> ?f j" using that ramp_mono [of ?N ?D i j] by simp
    qed
    then show ?thesis by simp
  qed
  have g: "sorted_wrt (<) (map ?f [0 ..< nat ?N])" if "?N \<le> ?D"
  proof (rule sorted_wrt_map_upt)
    fix i j :: nat assume "i < j" "j < nat ?N"
    then show "?f i < ?f j" using that ramp_strict [of ?N ?D i j] by simp
  qed
  show ?thesis using b c d e f g by simp
qed


theorem downtime_ramp_witness:
  "fst (DowntimeThread_run (\<lambda>i. False) (\<lambda>i. None) (DowntimeThread_init 10 500 75 2048)) = None \<and>
   downtime_calls (snd (DowntimeThread_run (\<lambda>i. False) (\<lambda>i. None) (DowntimeThread_init 10 500 75 2048)))
     = [50, 100, 150, 200, 250, 300, 350, 400, 450, 500] \<and>
   downtime_calls (snd (DowntimeThread_run (\<lambda>i. 3 \<le> i) (\<lambda>i. None) (DowntimeThread_init 10 500 75 2048)))
     = [50, 100, 150]"
  using downtime_ramp [of "DowntimeThread_init 10 500 75 2048" "\<lambda>i. None" "\<lambda>i. False"]
    downtime_ramp [of "DowntimeThread_init 10 500 75 2048" "\<lambda>i. None" "\<lambda>i. 3 \<le> i"]
  by (simp add: DowntimeThread_init_def upt_conv_Cons)

theorem downtime_ramp_counterexample:
  "downtime_calls (snd (DowntimeThread_run (\<lambda>i. False) (\<lambda>i. None) (DowntimeThread_init 3 1 75 2048)))
     = [0, 0, 1] \<and>
   \<not> sorted_wrt (<) (downtime_calls (snd (DowntimeThread_run (\<lambda>i. False) (\<lambda>i. None)
       (DowntimeThread_init 3 1 75 2048)))) \<and>
   downtime_calls (snd (DowntimeThread_run (\<lambda>i. False)
       (\<lambda>i. if i = 0 then Some (LibvirtError (Some 55)) else None)
       (DowntimeThread_init 10 500 75 2048))) = [50]"
  by (simp add: DowntimeThread_run_def DowntimeThread_init_def upt_conv_Cons Let_def)

subsection \<open>The recorded migration parameters\<close>

text \<open>
  C4: for every run of the driver from a VM configuration without the key
  \<open>_migrationParams\<close>, the key is absent again when the run has ended, on every exit
  path; and among the events of the slot, the key and the hypervisor's transfer, the
  run adds nothing, or an acquire and a release, or an acquire, the setting of the key,
  at most one transfer, the removal of the key and the release, in this order: the key
  is set before the hypervisor is invoked and removed before the slot is released.
\<close>

theorem migrationParams_scope:
  assumes "run e s = Some (r, s')" and "ongoing_value s \<le> ongoing_initial s"
    and "\<not> dict_has ''_migrationParams'' (conf s)"
  shows "\<not> dict_has ''_migrationParams'' (conf s') \<and>
     (\<exists>X. filter is_lifecycle (trace s') = filter is_lifecycle (trace s) @ X \<and>
        (X = [] \<or> X = [SlotAcquire, SlotRelease] \<or>
         X = [SlotAcquire, ConfSetMigrationParams, ConfDelMigrationParams, SlotRelease] \<or>
         (\<exists>t. is_transfer t \<and>
            X = [SlotAcquire, ConfSetMigrationParams, t, ConfDelMigrationParams, SlotRelease])))"
proof -
  from run_sum [OF assms(1)] obtain r0 s0 where
    b: "run_body e s = Some (r0, s0)" and q: "quiet s0 s'" by blast
  note m = run_body_sum [OF b assms(2)]
  have c: "conf s' = conf s0" and v: "vis s' = vis s0" using q by (simp_all add: quiet_def frame_def)
  have absent: "\<not> dict_has ''_migrationParams'' (conf s0)"
    using m assms(3) by (auto simp: quiet_def frame_def)
  have "\<exists>X. filter is_lifecycle (vis s0) = filter is_lifecycle (vis s) @ X \<and>
        (X = [] \<or> X = [SlotAcquire, SlotRelease] \<or>
         X = [SlotAcquire, ConfSetMigrationParams, ConfDelMigrationParams, SlotRelease] \<or>
         (\<exists>t. is_transfer t \<and>
            X = [SlotAcquire, ConfSetMigrationParams, t, ConfDelMigrationParams, SlotRelease]))"
  proof -
    consider (early) "vis s0 = vis s"
      | (cancel) "vis s0 = vis s @ [SlotAcquire] @ [] @ [SlotRelease]"
      | (body) U where
          "vis s0 = vis s @ [SlotAcquire] @ (ConfSetMigrationParams # U @ [ConfDelMigrationParams])
                     @ [SlotRelease]"
          "body_events e s r0 U"
      using m assms(3) by (auto simp: quiet_def)
    then show ?thesis
    proof cases
      case early
      then show ?thesis by simp
    next
      case cancel
      then show ?thesis by (simp add: is_lifecycle_def)
    next
      case body
      have "filter is_lifecycle U = [] \<or> (\<exists>t. is_transfer t \<and> filter is_lifecycle U = [t])"
        using body(2) by (rule body_events_lifecycle)
      then show ?thesis using body(1) by (auto simp: is_lifecycle_def)
    qed
  qed
  then show ?thesis
    using absent c v by (simp add: filter_vis [OF lifecycle_visible])
qed

theorem migrationParams_scope_witness:
  "\<not> dict_has ''_migrationParams'' (conf sample_remote) \<and>
   (\<exists>r s'. run sample_env sample_remote = Some (r, s') \<and>
      \<not> dict_has ''_migrationParams'' (conf s') \<and>
      filter is_lifecycle (trace s') =
          [SlotAcquire, ConfSetMigrationParams,
           MigrateToURI2 ''qemu+tls://peer/system'' ''tcp://peer'' False False 32,
           ConfDelMigrationParams, SlotRelease])"
proof -
  obtain s' where r: "run sample_env sample_remote = Some (None, s')"
    and f: "filter is_lifecycle (trace s') =
          [SlotAcquire, ConfSetMigrationParams,
           MigrateToURI2 ''qemu+tls://peer/system'' ''tcp://peer'' False False 32,
           ConfDelMigrationParams, SlotRelease]"
    using sample_remote_run by blast
  have a: "\<not> dict_has ''_migrationParams'' (conf sample_remote)"
    by (simp add: sample_defs dict_has_def)
  from migrationParams_scope [OF r sample_wf a]
  have "\<not> dict_has ''_migrationParams'' (conf s')" by blast
  then show ?thesis using r f a by simp
qed

subsection \<open>The two volume paths of a save to a file\<close>

text \<open>
  C10, as amended: in every file-mode run the volume and file events have the shape
  \<open>state_saved\<close>: the domain is saved to the file that the volume path prepared from
  \<open>_dst\<close> gives, and that path is torn down right after the save, whether it raised or
  not; the parameters are dumped to the file of the path prepared from \<open>_dstparams\<close>,
  which is torn down right after the open and the dump, whether they raised or not.
  A run that succeeds has all seven events, with the files that the two preparations
  returned. Nothing makes the two paths or files differ: the fields are never compared.
\<close>

theorem volume_paths:
  assumes "run e s = Some (r, s')" and "ongoing_value s \<le> ongoing_initial s"
    and "mode s = ''file''"
  shows "\<exists>V. filter is_volume (trace s') = filter is_volume (trace s) @ V \<and>
           state_saved e (dst s) (dstparams s) V \<and>
           (succeeds e s \<longrightarrow>
              (\<exists>f g d. prepareVolumePath_dst e = Inr f \<and>
                 prepareVolumePath_dstparams e = Inr g \<and>
                 V = [PrepareVolumePath (dst s), DomSave f, TeardownVolumePath (dst s),
                      PrepareVolumePath (dstparams s), OpenWrite g, PickleDump g d,
                      TeardownVolumePath (dstparams s)]))"
proof -
  from file_run_sum [OF assms] obtain V where
    V: "filter is_volume (vis s') = filter is_volume (vis s) @ V"
       "state_saved e (dst s) (dstparams s) V" "succeeds e s \<longrightarrow> length V = 7"
    by blast
  have "succeeds e s \<longrightarrow>
          (\<exists>f g d. prepareVolumePath_dst e = Inr f \<and>
                 prepareVolumePath_dstparams e = Inr g \<and>
                 V = [PrepareVolumePath (dst s), DomSave f, TeardownVolumePath (dst s),
                      PrepareVolumePath (dstparams s), OpenWrite g, PickleDump g d,
                      TeardownVolumePath (dstparams s)])"
    using V(2,3) state_saved_files [of e "dst s" "dstparams s" V] by blast
  then show ?thesis
    using V(1,2) by (auto simp: filter_vis [OF volume_visible])
qed


theorem volume_paths_witness:
  "mode sample_file = ''file'' \<and> succeeds sample_env sample_file \<and>
   (\<exists>r s' f g d. run sample_env sample_file = Some (r, s') \<and>
      prepareVolumePath_dst sample_env = Inr f \<and>
      prepareVolumePath_dstparams sample_env = Inr g \<and>
      filter is_volume (trace s') =
        [PrepareVolumePath (dst sample_file), DomSave f, TeardownVolumePath (dst sample_file),
         PrepareVolumePath (dstparams sample_file), OpenWrite g, PickleDump g d,
         TeardownVolumePath (dstparams sample_file)])"
proof -
  obtain s' where r: "run sample_env sample_file = Some (None, s')"
    using sample_file_run by blast
  have t: "trace sample_file = []" by (simp add: sample_defs)
  from volume_paths [OF r sample_file_wf sample_file_mode] sample_file_succeeds t
  have "\<exists>f g d. prepareVolumePath_dst sample_env = Inr f \<and>
      prepareVolumePath_dstparams sample_env = Inr g \<and>
      filter is_volume (trace s') =
        [PrepareVolumePath (dst sample_file), DomSave f, TeardownVolumePath (dst sample_file),
         PrepareVolumePath (dstparams sample_file), OpenWrite g, PickleDump g d,
         TeardownVolumePath (dstparams sample_file)]"
    by auto
  then show ?thesis using r sample_file_mode sample_file_succeeds by blast
qed


theorem volume_paths_counterexample:
  "dst sample_file_same = dstparams sample_file_same \<and>
   prepareVolumePath_dst sample_env_same = prepareVolumePath_dstparams sample_env_same \<and>
   succeeds sample_env_same sample_file_same \<and>
   (\<exists>r s' d. run sample_env_same sample_file_same = Some (r, s') \<and>
      filter is_volume (trace s') =
        [PrepareVolumePath ''vol'', DomSave ''/rhev/state'', TeardownVolumePath ''vol'',
         PrepareVolumePath ''vol'', OpenWrite ''/rhev/state'',
         PickleDump ''/rhev/state'' d, TeardownVolumePath ''vol''] \<and>
      code (status s') = 0 \<and> message (status s') = ''SaveState done'')"
  using case_run_ex [OF sample_same_case] sample_same_succeeds by blast


subsection \<open>The persisted parameters\<close>

text \<open>
  C8: in every file-mode run, each dictionary handed to \<open>pickle.dump\<close> has none of the
  keys \<open>displayIp\<close>, \<open>display\<close> and \<open>pid\<close>; a run that succeeds dumps exactly one.
\<close>

theorem persisted_params:
  assumes "run e s = Some (r, s')" and "ongoing_value s \<le> ongoing_initial s"
    and "mode s = ''file''"
  shows "\<exists>D. pickled (trace s') = pickled (trace s) @ D \<and>
           list_all (\<lambda>d. \<not> dict_has ''displayIp'' d \<and> \<not> dict_has ''display'' d \<and>
                         \<not> dict_has ''pid'' d) D \<and>
           (succeeds e s \<longrightarrow> length D = 1)"
proof -
  from file_run_sum [OF assms] obtain V where
    V: "pickled (vis s') = pickled (vis s) @ pickled V"
       "state_saved e (dst s) (dstparams s) V" "succeeds e s \<longrightarrow> length V = 7"
    by blast
  have p: "pickled (trace s') = pickled (trace s) @ pickled V"
    using V(1) by (simp add: vis_def pickled_visible)
  have "list_all no_transient (pickled V)" using V(2) by (rule state_saved_pickled)
  then have a: "list_all (\<lambda>d. \<not> dict_has ''displayIp'' d \<and> \<not> dict_has ''display'' d \<and>
                         \<not> dict_has ''pid'' d) (pickled V)"
    by (simp add: no_transient_def [abs_def])
  have "succeeds e s \<longrightarrow> length (pickled V) = 1"
    using V(2,3) state_saved_full [of e "dst s" "dstparams s" V] by auto
  then show ?thesis using p a by blast
qed

theorem persisted_params_witness:
  "mode sample_file = ''file'' \<and> succeeds sample_env sample_file \<and>
   dict_has ''pid'' sample_params \<and> dict_has ''display'' sample_params \<and>
   dict_has ''displayIp'' sample_params \<and>
   (\<exists>r s' d. run sample_env sample_file = Some (r, s') \<and> pickled (trace s') = [d] \<and>
      \<not> dict_has ''displayIp'' d \<and> \<not> dict_has ''display'' d \<and> \<not> dict_has ''pid'' d)"
proof -
  obtain s' where r: "run sample_env sample_file = Some (None, s')"
    using sample_file_run by blast
  have t: "trace sample_file = []" by (simp add: sample_defs)
  from persisted_params [OF r sample_file_wf sample_file_mode] sample_file_succeeds t
  obtain D where D: "pickled (trace s') = D" "length D = 1"
    "list_all (\<lambda>d. \<not> dict_has ''displayIp'' d \<and> \<not> dict_has ''display'' d \<and>
                         \<not> dict_has ''pid'' d) D"
    by auto
  then obtain d where "D = [d]" by (cases D) auto
  then have "pickled (trace s') = [d] \<and>
      \<not> dict_has ''displayIp'' d \<and> \<not> dict_has ''display'' d \<and> \<not> dict_has ''pid'' d"
    using D by simp
  moreover have "dict_has ''pid'' sample_params \<and> dict_has ''display'' sample_params \<and>
   dict_has ''displayIp'' sample_params"
    by (simp add: sample_params_def dict_has_def)
  ultimately show ?thesis using r sample_file_mode sample_file_succeeds by blast
qed

subsection \<open>The probe of the peer\<close>

text \<open>
  C1, as amended: in every remote-mode run in which the peer answers the \<open>getVmStats\<close>
  probe with code 0, \<open>_setupVdsConnection\<close> sets the status to \<open>exist\<close> and returns
  normally, so the lifecycle goes on: when phase 2 raises nothing and a slot is free,
  the run acquires the slot and releases it once, and when moreover no later step
  before the hypervisor call fails and no cancellation is seen, it calls
  \<open>migrateToURI2\<close>.
\<close>

theorem exist_probe_continues:
  assumes "mode s \<noteq> ''file''" and "hostPort e = Inr h" and "connect e = None"
    and "getVmStats e = Inr 0"
  shows "fst (setupVdsConnection e s) = None \<and>
     status (snd (setupVdsConnection e s)) = err_status (errCode_exist e) \<and>
     (fst (setupRemoteMachineParams e (snd (setupVdsConnection e s))) = None \<and>
      0 < ongoing_value s \<and> ongoing_value s \<le> ongoing_initial s \<longrightarrow>
        (\<exists>r s'. run e s = Some (r, s') \<and>
           filter is_slot (trace s') = filter is_slot (trace s) @ [SlotAcquire, SlotRelease] \<and>
           (\<not> remote_blocked e \<and> \<not> cancel_seen e s \<longrightarrow>
              (\<exists>t. is_migrateToURI2 t \<and>
                   filter is_transfer (trace s') = filter is_transfer (trace s) @ [t]))))"
proof -
  have a: "fst (setupVdsConnection e s) = None"
    "status (snd (setupVdsConnection e s)) = err_status (errCode_exist e)"
    "mode (snd (setupVdsConnection e s)) = mode s"
    using assms by (simp_all add: setupVdsConnection_def Let_def emit_def)
  have b: "\<exists>r s'. run e s = Some (r, s') \<and>
           filter is_slot (trace s') = filter is_slot (trace s) @ [SlotAcquire, SlotRelease] \<and>
           (\<not> remote_blocked e \<and> \<not> cancel_seen e s \<longrightarrow>
              (\<exists>t. is_migrateToURI2 t \<and>
                   filter is_transfer (trace s') = filter is_transfer (trace s) @ [t]))"
    if p2: "fst (setupRemoteMachineParams e (snd (setupVdsConnection e s))) = None"
      and pos: "0 < ongoing_value s" and wf: "ongoing_value s \<le> ongoing_initial s"
  proof -
    obtain sa where sa: "setupVdsConnection e s = (None, sa)"
      using a(1) by (cases "setupVdsConnection e s") simp
    obtain sb where sb: "setupRemoteMachineParams e sa = (None, sb)"
      using p2 sa by (cases "setupRemoteMachineParams e sa") simp
    have msb: "mode sb \<noteq> ''file''"
      using params_carried [of e sa] sb sa a(3) assms(1) by simp
    obtain s1 where pre:
      "seqs [setupVdsConnection e, setupRemoteMachineParams e, prepareGuest e] s = (None, s1)"
      using sa sb msb by (simp add: prepareGuest_def)
    obtain r s' where run: "run e s = Some (r, s')"
      using run_returns [OF pos, of e] by (cases "run e s") auto
    from run_sum [OF run] obtain r0 s0 where
      rb: "run_body e s = Some (r0, s0)" and q: "quiet s0 s'" by blast
    have v: "vis s' = vis s0" using q by (simp add: quiet_def)
    note m = run_body_sum [OF rb wf]
    have "filter is_slot (vis s0) = filter is_slot (vis s) @ [SlotAcquire, SlotRelease]"
      using m pre by (auto simp: body_events_slot)
    then have slot: "filter is_slot (trace s') = filter is_slot (trace s) @ [SlotAcquire, SlotRelease]"
      using v by (simp add: filter_vis [OF slot_visible])
    have "\<exists>t. is_migrateToURI2 t \<and>
               filter is_transfer (trace s') = filter is_transfer (trace s) @ [t]"
      if "\<not> remote_blocked e" "\<not> cancel_seen e s"
      using run_body_ok [OF assms(1) pre pos wf that rb] v
      by (simp add: filter_vis [OF transfer_visible])
    then show ?thesis using run slot by blast
  qed
  show ?thesis using a(1,2) b by blast
qed



theorem exist_probe_continues_witness:
  "mode sample_remote \<noteq> ''file'' \<and> hostPort sample_env_exist = Inr ''peer'' \<and>
   connect sample_env_exist = None \<and> getVmStats sample_env_exist = Inr 0 \<and>
   \<not> remote_blocked sample_env_exist \<and> \<not> cancel_seen sample_env_exist sample_remote \<and>
   status (snd (setupVdsConnection sample_env_exist sample_remote)) =
     \<lparr>code = 4, message = ''Virtual machine already exists'', progress = None\<rparr> \<and>
   (\<exists>r s' t. run sample_env_exist sample_remote = Some (r, s') \<and>
      filter is_slot (trace s') = [SlotAcquire, SlotRelease] \<and>
      is_migrateToURI2 t \<and> filter is_transfer (trace s') = [t])"
proof -
  have h: "mode sample_remote \<noteq> ''file''" "hostPort sample_env_exist = Inr ''peer''"
    "connect sample_env_exist = None" "getVmStats sample_env_exist = Inr 0"
    by (simp_all add: sample_defs variant_defs)
  have g: "fst (setupRemoteMachineParams sample_env_exist
                 (snd (setupVdsConnection sample_env_exist sample_remote))) = None"
    "0 < ongoing_value sample_remote" "ongoing_value sample_remote \<le> ongoing_initial sample_remote"
    "\<not> remote_blocked sample_env_exist" "\<not> cancel_seen sample_env_exist sample_remote"
    "trace sample_remote = []"
    "err_status (errCode_exist sample_env_exist) =
       \<lparr>code = 4, message = ''Virtual machine already exists'', progress = None\<rparr>"
    by (simp_all add: driver_defs sample_defs variant_defs remote_blocked_def cancel_seen_def)
  from exist_probe_continues [OF h] g h show ?thesis by auto
qed


theorem exist_probe_counterexample:
  "mode sample_remote = ''remote'' \<and> getVmStats sample_env_exist = Inr 0 \<and>
   (\<exists>s'. run sample_env_exist sample_remote = Some (None, s') \<and>
      filter is_lifecycle (trace s') =
          [SlotAcquire, ConfSetMigrationParams,
           MigrateToURI2 ''qemu+tls://peer/system'' ''tcp://peer'' False False 32,
           ConfDelMigrationParams, SlotRelease] \<and>
      status s' = \<lparr>code = 4, message = ''Migration done'', progress = Some 100\<rparr>)"
  using sample_exist_run by (simp add: sample_defs variant_defs)


subsection \<open>Cancellation\<close>





subsection \<open>The exposed progress\<close>

text \<open>
  C2, as amended: while a monitor exists, \<open>getStat\<close> exposes the monitor's \<open>progress\<close>
  (without a monitor, the status as the driver left it). An iteration of the monitor
  that is in its loop, is not stopped, gets a sample with a non-zero job type and does
  not abort the job sets \<open>progress\<close> to calc(dataRemaining, dataTotal) of its sample;
  every other iteration (the loop is over, the monitor is stopped, \<open>jobInfo\<close> raises,
  the job type is 0, or the iteration aborts the job) leaves \<open>progress\<close> unchanged.
  calc never exceeds 100 and is 100 exactly when dataRemaining is 0, whether or not the
  migration has ended; so \<open>progress\<close> is at most 99 after an iteration that sets it
  from a sample with data remaining, and it never exceeds 100 if it did not before. Over
  samples that report one positive total and remaining amounts that never grow, the
  values of \<open>progress\<close> never decrease; otherwise they can. \<open>_finishSuccessfully\<close> sets
  the progress of the status to 100.
\<close>

theorem progress_exposed:
  "(monitorThread s = Some m \<longrightarrow> progress (fst (getStat s)) = Some (m_progress m)) \<and>
   (monitorThread s = None \<longrightarrow> fst (getStat s) = status s) \<and>
   (m_loop m = Some l \<and> \<not> m_stop m \<and> tick_jobInfo t = Inr j \<and> jobType j \<noteq> 0 \<and>
    AbortJob \<notin> set (fst (MonitorThread_iteration t m)) \<longrightarrow>
      m_progress (snd (MonitorThread_iteration t m)) =
        calculateProgress (dataRemaining j) (dataTotal j)) \<and>
   (m_loop m = None \<or> m_stop m \<or> (\<exists>x. tick_jobInfo t = Inl x) \<or>
    (\<exists>j. tick_jobInfo t = Inr j \<and> jobType j = 0) \<or>
    AbortJob \<in> set (fst (MonitorThread_iteration t m)) \<longrightarrow>
      m_progress (snd (MonitorThread_iteration t m)) = m_progress m) \<and>
   calculateProgress r tot \<le> 100 \<and> (calculateProgress r tot = 100 \<longleftrightarrow> r = 0) \<and>
   (m_progress m \<le> 100 \<longrightarrow> list_all (\<lambda>p. p \<le> 100) (progress_seq ts m)) \<and>
   (0 < T \<and> r \<le> T \<and> converging T r ts \<and> m_progress m \<le> calculateProgress r T \<longrightarrow>
      sorted (m_progress m # progress_seq ts m)) \<and>
   progress (status (snd (finishSuccessfully e s))) = Some 100"
proof -
  have a: "monitorThread s = Some m \<longrightarrow> progress (fst (getStat s)) = Some (m_progress m)"
    "monitorThread s = None \<longrightarrow> fst (getStat s) = status s"
    by (simp_all add: getStat_def)
  have b: "m_loop m = Some l \<and> \<not> m_stop m \<and> tick_jobInfo t = Inr j \<and> jobType j \<noteq> 0 \<and>
    AbortJob \<notin> set (fst (MonitorThread_iteration t m)) \<longrightarrow>
      m_progress (snd (MonitorThread_iteration t m)) =
        calculateProgress (dataRemaining j) (dataTotal j)"
    using iteration_sets_progress [of m l t j] by blast
  have c: "m_loop m = None \<or> m_stop m \<or> (\<exists>x. tick_jobInfo t = Inl x) \<or>
    (\<exists>j. tick_jobInfo t = Inr j \<and> jobType j = 0) \<or>
    AbortJob \<in> set (fst (MonitorThread_iteration t m)) \<longrightarrow>
      m_progress (snd (MonitorThread_iteration t m)) = m_progress m"
    using iteration_keeps_progress [of m t] by blast
  have d: "0 < T \<and> r \<le> T \<and> converging T r ts \<and> m_progress m \<le> calculateProgress r T \<longrightarrow>
      sorted (m_progress m # progress_seq ts m)"
    using progress_seq_sorted [of T r ts m] by blast
  have f: "m_progress m \<le> 100 \<longrightarrow> list_all (\<lambda>p. p \<le> 100) (progress_seq ts m)"
    using progress_seq_le_100 [of m ts] by blast
  show ?thesis
    using a b c d f calc_le_100 [of r tot] calc_100_iff [of r tot] finish_progress [of e s]
    by blast
qed

theorem progress_exposed_witness:
  "converging 100 100 [sample_tick 1010 50 100, sample_tick 1020 10 100, sample_tick 1030 0 100] \<and>
   progress_seq [sample_tick 1010 50 100, sample_tick 1020 10 100, sample_tick 1030 0 100]
     (MonitorThread_run_begin (Inr 2048) 64 150 1002 (MonitorThread_init 1000)) = [50, 90, 100] \<and>
   sorted (m_progress (MonitorThread_run_begin (Inr 2048) 64 150 1002 (MonitorThread_init 1000)) #
           progress_seq [sample_tick 1010 50 100, sample_tick 1020 10 100, sample_tick 1030 0 100]
             (MonitorThread_run_begin (Inr 2048) 64 150 1002 (MonitorThread_init 1000))) \<and>
   AbortJob \<notin> set (fst (MonitorThread_iteration (sample_tick 1010 50 100)
      (MonitorThread_run_begin (Inr 2048) 64 150 1002 (MonitorThread_init 1000)))) \<and>
   m_progress (snd (MonitorThread_iteration (sample_tick 1010 50 100)
      (MonitorThread_run_begin (Inr 2048) 64 150 1002 (MonitorThread_init 1000)))) =
     calculateProgress 50 100 \<and>
   AbortJob \<in> set (fst (MonitorThread_iteration (sample_tick 1003 0 100)
      (MonitorThread_run_begin (Inr 1024) 1 150 1002 (MonitorThread_init 1000)))) \<and>
   m_progress (snd (MonitorThread_iteration (sample_tick 1003 0 100)
      (MonitorThread_run_begin (Inr 1024) 1 150 1002 (MonitorThread_init 1000)))) = 0"
proof -
  let ?ts = "[sample_tick 1010 50 100, sample_tick 1020 10 100, sample_tick 1030 0 100]"
  let ?m = "MonitorThread_run_begin (Inr 2048) 64 150 1002 (MonitorThread_init 1000)"
  let ?l = "\<lparr>migrationMaxTime = 128, lastProgressTime = 1002, lowmark = None,
             progress_timeout = 150\<rparr>"
  let ?j = "\<lparr>jobType = 2, timeElapsed = 1000, dataTotal = 100, dataRemaining = 50\<rparr>"
  let ?m2 = "MonitorThread_run_begin (Inr 1024) 1 150 1002 (MonitorThread_init 1000)"
  have c: "converging 100 100 ?ts" by code_simp
  have p: "progress_seq ?ts ?m = [50, 90, 100]" by code_simp
  have h: "(0::int) < 100 \<and> (100::int) \<le> 100 \<and> converging 100 100 ?ts \<and>
           m_progress ?m \<le> calculateProgress 100 100"
    using c by code_simp
  have s: "sorted (m_progress ?m # progress_seq ?ts ?m)"
    using progress_exposed [where m = ?m and T = 100 and r = 100 and ts = ?ts] h by blast
  have h1: "m_loop ?m = Some ?l \<and> \<not> m_stop ?m \<and> tick_jobInfo (sample_tick 1010 50 100) = Inr ?j \<and>
      jobType ?j \<noteq> 0 \<and>
      AbortJob \<notin> set (fst (MonitorThread_iteration (sample_tick 1010 50 100) ?m))"
    by code_simp
  have s1: "m_progress (snd (MonitorThread_iteration (sample_tick 1010 50 100) ?m)) =
      calculateProgress 50 100"
    using progress_exposed [where m = ?m and l = ?l and t = "sample_tick 1010 50 100" and j = ?j]
      h1 by simp
  have h2: "AbortJob \<in> set (fst (MonitorThread_iteration (sample_tick 1003 0 100) ?m2))"
    by code_simp
  have z: "m_progress ?m2 = 0" by code_simp
  have s2: "m_progress (snd (MonitorThread_iteration (sample_tick 1003 0 100) ?m2)) = 0"
    using progress_exposed [where m = ?m2 and t = "sample_tick 1003 0 100"] h2 z by simp
  show ?thesis using c p s h1 s1 h2 s2 by blast
qed


theorem progress_exposed_counterexample:
  "\<not> succeeds sample_env_stall sample_remote \<and>
   (\<exists>r s'. run sample_env_stall sample_remote = Some (r, s') \<and>
      reported_progress (trace s') = [90, 50, 100] \<and>
      \<not> sorted (reported_progress (trace s')) \<and> code (status s') = 12 \<and>
      message (status s') = ''Fatal error during migration'')"
  using case_run_ex [OF sample_stall_case] sample_stall_fails by blast


subsection \<open>The stall policy of the monitor\<close>

text \<open>
  C6, as amended: when the monitor's \<open>run\<close> begins, \<open>lastProgressTime\<close> is the time the
  clock shows then (not the driver's \<open>startTime\<close>, which the monitor keeps for the
  maximum-time check) and \<open>lowmark\<close> is undefined. An iteration that has a sample calls
  \<open>abortJob\<close> exactly when the maximum migration time is positive and exceeded since
  \<open>startTime\<close>, or the sample does not improve a defined \<open>lowmark\<close> and more than
  \<open>progress_timeout\<close> seconds have passed since \<open>lastProgressTime\<close>; a sample that
  improves \<open>lowmark\<close> (the first sample always does) sets \<open>lastProgressTime\<close> to its
  time.
\<close>

theorem monitor_stall_policy:
  "m_loop (MonitorThread_run_begin (Inr sz) maxTimePerGiB timeout now
             (MonitorThread_init startTime)) =
     Some \<lparr>migrationMaxTime = (maxTimePerGiB * sz + 1023) div 1024, lastProgressTime = now,
            lowmark = None, progress_timeout = timeout\<rparr> \<and>
   (m_loop m = Some l \<and> \<not> m_stop m \<and> tick_jobInfo t = Inr j \<longrightarrow>
      (AbortJob \<in> set (fst (MonitorThread_iteration t m)) \<longleftrightarrow>
         (0 < migrationMaxTime l \<and> of_int (migrationMaxTime l) < tick_now t - m_startTime m) \<or>
         (\<exists>lm. lowmark l = Some lm \<and> lm \<le> dataRemaining j \<and>
               tick_now t - lastProgressTime l > of_int (progress_timeout l))) \<and>
      (\<forall>l'. m_loop (snd (MonitorThread_iteration t m)) = Some l' \<longrightarrow>
         lastProgressTime l' =
           (if (case lowmark l of None \<Rightarrow> True | Some lm \<Rightarrow> dataRemaining j < lm)
            then tick_now t else lastProgressTime l) \<and>
         lowmark l' =
           (if (case lowmark l of None \<Rightarrow> True | Some lm \<Rightarrow> dataRemaining j < lm)
            then Some (dataRemaining j) else lowmark l)))"
proof -
  have a: "m_loop (MonitorThread_run_begin (Inr sz) maxTimePerGiB timeout now
             (MonitorThread_init startTime)) =
     Some \<lparr>migrationMaxTime = (maxTimePerGiB * sz + 1023) div 1024, lastProgressTime = now,
            lowmark = None, progress_timeout = timeout\<rparr>"
    by (simp add: MonitorThread_run_begin_def MonitorThread_init_def)
  show ?thesis
    using a iteration_aborts_iff [of m l t j] iteration_lastProgressTime [of m l t _ j]
    by blast
qed


theorem monitor_stall_policy_witness:
  "map_option lastProgressTime
     (m_loop (MonitorThread_run_begin (Inr 2048) 64 150 1002 (MonitorThread_init 1000))) = Some 1002 \<and>
   AbortJob \<notin> set (fst (MonitorThread_iteration (sample_tick 1160 10 100)
      \<lparr>m_stop = False, m_startTime = 1000, m_progress = 90,
        m_loop = Some \<lparr>migrationMaxTime = 0, lastProgressTime = 1010, lowmark = Some 10,
                       progress_timeout = 150\<rparr>\<rparr>)) \<and>
   AbortJob \<in> set (fst (MonitorThread_iteration (sample_tick 1161 10 100)
      \<lparr>m_stop = False, m_startTime = 1000, m_progress = 90,
        m_loop = Some \<lparr>migrationMaxTime = 0, lastProgressTime = 1010, lowmark = Some 10,
                       progress_timeout = 150\<rparr>\<rparr>))"
proof -
  let ?l = "\<lparr>migrationMaxTime = 0, lastProgressTime = 1010, lowmark = Some 10,
                       progress_timeout = 150\<rparr>"
  let ?m = "\<lparr>m_stop = False, m_startTime = 1000, m_progress = 90, m_loop = Some ?l\<rparr>"
  let ?j = "\<lparr>jobType = 2, timeElapsed = 1000, dataTotal = 100, dataRemaining = 10\<rparr>"
  have h1: "m_loop ?m = Some ?l \<and> \<not> m_stop ?m \<and> tick_jobInfo (sample_tick 1160 10 100) = Inr ?j"
    by (simp add: sample_tick_def)
  have h2: "m_loop ?m = Some ?l \<and> \<not> m_stop ?m \<and> tick_jobInfo (sample_tick 1161 10 100) = Inr ?j"
    by (simp add: sample_tick_def)
  have a: "map_option lastProgressTime
     (m_loop (MonitorThread_run_begin (Inr 2048) 64 150 1002 (MonitorThread_init 1000))) = Some 1002"
    using monitor_stall_policy [of 2048 64 150 1002 1000] by simp
  have b: "AbortJob \<notin> set (fst (MonitorThread_iteration (sample_tick 1160 10 100) ?m))"
    using monitor_stall_policy [of _ _ _ _ _ ?m ?l "sample_tick 1160 10 100" ?j] h1
    by (simp add: sample_tick_def)
  have c: "AbortJob \<in> set (fst (MonitorThread_iteration (sample_tick 1161 10 100) ?m))"
    using monitor_stall_policy [of _ _ _ _ _ ?m ?l "sample_tick 1161 10 100" ?j] h2
    by (simp add: sample_tick_def)
  show ?thesis using a b c by blast
qed


theorem monitor_baseline_counterexample:
  "time_start sample_env = 1000 \<and>
   map_option (\<lambda>m. (m_startTime m, map_option lastProgressTime (m_loop m)))
     (monitorThread (snd (start_monitor sample_env (time_start sample_env) sample_remote)))
     = Some (1000, Some 1002) \<and>
   AbortJob \<in> set (fst (MonitorThread_iteration (sample_tick 1003 10 100)
      (MonitorThread_run_begin (Inr 1024) 1 150 1002 (MonitorThread_init 1000))))"
  by code_simp

end
